theory Spec2Isabelle
  imports Main
begin

section \<open>Python values used by the generator\<close>

text \<open>
  The program is Python. A \<open>str\<close> is modelled as a \<open>string\<close>: a list of 8-bit
  characters, read as the code points U+0000 to U+00FF, so that the accented letters of
  the program's own literals (\<open>CHR 0xC1\<close> is A with acute, \<open>CHR 0xD1\<close> is N with tilde,
  \<open>CHR 0xE1\<close> is a with acute) are single characters as they are in Python. Python's
  \<open>int\<close> is \<open>int\<close>.

  Every exception the modelled code can raise is a value of \<open>py_error\<close>.
\<close>

datatype py_error =
    ValueError string
  | InvalidLiteral string
  | DigitLimitError
  | UnpackError
  | DateValueError
  | OverflowError
  | IllegalMonthError int
  | IndexError

text \<open>
  \<open>ValueError msg\<close> is a \<open>ValueError\<close> raised by the program itself with message
  \<open>msg\<close>; \<open>InvalidLiteral s\<close> is the \<open>ValueError\<close> of \<open>int(s)\<close> (its message quotes
  \<open>s\<close>) and \<open>DigitLimitError\<close> its \<open>ValueError\<close> for a literal of more than 4300
  digits (the message gives the two numbers, not the literal); \<open>UnpackError\<close> the
  \<open>ValueError\<close> of unpacking a sequence of the wrong length;
  \<open>DateValueError\<close> the \<open>ValueError\<close> of \<open>date(y, m, d)\<close> for fields out of range and
  \<open>OverflowError\<close> the one for fields beyond a C int; \<open>IllegalMonthError\<close> is
  \<open>calendar.IllegalMonthError\<close>; \<open>IndexError\<close> an index out of range.
\<close>

subsection \<open>str.isspace, str.strip, str.split, str.isdigit\<close>

definition isspace :: "char \<Rightarrow> bool" where
  "isspace c = (of_char c \<in> {9, 10, 11, 12, 13, 28, 29, 30, 31, 32, 133, 160 :: nat})"

definition strip :: "string \<Rightarrow> string" where
  "strip s = rev (dropWhile isspace (rev (dropWhile isspace s)))"

text \<open>\<open>s.split(sep)\<close> for a one-character separator: every occurrence splits.\<close>

fun str_split :: "char \<Rightarrow> string \<Rightarrow> string list" where
  "str_split sep [] = [[]]"
| "str_split sep (c # cs) =
     (if c = sep then [] # str_split sep cs
      else (case str_split sep cs of [] \<Rightarrow> [[c]] | p # ps \<Rightarrow> (c # p) # ps))"

text \<open>\<open>s.split(sep, 1)\<close> for a string that contains \<open>sep\<close>: the two parts around its
  first occurrence.\<close>

definition str_split1 :: "char \<Rightarrow> string \<Rightarrow> string \<times> string" where
  "str_split1 sep s = (takeWhile (\<lambda>c. c \<noteq> sep) s, tl (dropWhile (\<lambda>c. c \<noteq> sep) s))"

definition is_decimal :: "char \<Rightarrow> bool" where
  "is_decimal c = (48 \<le> (of_char c :: nat) \<and> (of_char c :: nat) \<le> 57)"

text \<open>
  \<open>str.isdigit\<close> also accepts the superscript digits U+00B2, U+00B3 and U+00B9,
  which \<open>int()\<close> rejects.
\<close>

definition char_isdigit :: "char \<Rightarrow> bool" where
  "char_isdigit c = (is_decimal c \<or> of_char c \<in> {178, 179, 185 :: nat})"

definition isdigit :: "string \<Rightarrow> bool" where
  "isdigit s = (s \<noteq> [] \<and> list_all char_isdigit s)"

subsection \<open>int() and str() on integers\<close>

text \<open>
  \<open>int(s)\<close> in base 10: white space around the literal is dropped (not the
  separators U+001C to U+001F, which \<open>strip\<close> drops), then an optional sign, then
  decimal digits with single underscores between digits. The interpreter refuses a
  literal of more than 4300 digits (\<open>sys.int_info.default_max_str_digits\<close>, which the
  program does not change): it scans the digits and underscores, counts the digits, and
  raises for too many of them before it looks at what follows the digits.
\<close>

definition int_space :: "char \<Rightarrow> bool" where
  "int_space c = (of_char c \<in> {9, 10, 11, 12, 13, 32, 133, 160 :: nat})"

definition digit_value :: "char \<Rightarrow> nat" where
  "digit_value c = of_char c - 48"

definition int_max_str_digits :: nat where
  "int_max_str_digits = 4300"

fun int_digits :: "nat \<Rightarrow> string \<Rightarrow> nat option" where
  "int_digits acc [] = Some acc"
| "int_digits acc [c] = (if is_decimal c then Some (10 * acc + digit_value c) else None)"
| "int_digits acc (c # d # cs) =
     (if is_decimal c then int_digits (10 * acc + digit_value c) (d # cs)
      else if c = CHR ''_'' \<and> is_decimal d then int_digits (10 * acc + digit_value d) cs
      else None)"

definition digit_or_underscore :: "char \<Rightarrow> bool" where
  "digit_or_underscore c = (is_decimal c \<or> c = CHR ''_'')"

definition py_int :: "string \<Rightarrow> py_error + int" where
  "py_int s =
     (let t = rev (dropWhile int_space (rev (dropWhile int_space s)));
          signed = (t \<noteq> [] \<and> (hd t = CHR ''-'' \<or> hd t = CHR ''+''));
          neg = (t \<noteq> [] \<and> hd t = CHR ''-'');
          body = (if signed then tl t else t);
          run = takeWhile digit_or_underscore body;
          rest = dropWhile digit_or_underscore body
      in case run of
           [] \<Rightarrow> Inl (InvalidLiteral s)
         | d # ds \<Rightarrow>
             if is_decimal d then
               (case int_digits (digit_value d) ds of
                  None \<Rightarrow> Inl (InvalidLiteral s)
                | Some n \<Rightarrow>
                    if int_max_str_digits < length (filter is_decimal run)
                    then Inl DigitLimitError
                    else if rest \<noteq> [] then Inl (InvalidLiteral s)
                    else Inr (if neg then - int n else int n))
             else Inl (InvalidLiteral s))"

definition digit_char :: "nat \<Rightarrow> char" where
  "digit_char n = ''0123456789'' ! n"

fun str_nat :: "nat \<Rightarrow> string" where
  "str_nat n = (if n < 10 then [digit_char n] else str_nat (n div 10) @ [digit_char (n mod 10)])"

declare str_nat.simps [simp del]

definition str_int :: "int \<Rightarrow> string" where
  "str_int i = (if i < 0 then CHR ''-'' # str_nat (nat (- i)) else str_nat (nat i))"

section \<open>The calendar\<close>

text \<open>
  \<open>calendar\<close> and \<open>datetime\<close> are Python's standard library; they are modelled from
  their sources: the proleptic Gregorian calendar, years 1 to 9999 for a \<open>date\<close>.
\<close>

datatype date = Date (year: int) (month: int) (day: int)

definition isleap :: "int \<Rightarrow> bool" where
  "isleap y = (y mod 4 = 0 \<and> (y mod 100 \<noteq> 0 \<or> y mod 400 = 0))"

definition mdays :: "nat list" where
  "mdays = [0, 31, 28, 31, 30, 31, 30, 31, 31, 30, 31, 30, 31]"

definition days_before_month_tab :: "int list" where
  "days_before_month_tab = [-1, 0, 31, 59, 90, 120, 151, 181, 212, 243, 273, 304, 334]"

definition days_before_year :: "int \<Rightarrow> int" where
  "days_before_year y = (let z = y - 1 in z * 365 + z div 4 - z div 100 + z div 400)"

definition days_in_month :: "int \<Rightarrow> int \<Rightarrow> int" where
  "days_in_month y m = (if m = 2 \<and> isleap y then 29 else int (mdays ! nat m))"

definition days_before_month :: "int \<Rightarrow> int \<Rightarrow> int" where
  "days_before_month y m =
     days_before_month_tab ! nat m + (if 2 < m \<and> isleap y then 1 else 0)"

definition c_int :: "int \<Rightarrow> bool" where
  "c_int i = (- 2147483648 \<le> i \<and> i \<le> 2147483647)"

text \<open>\<open>date(y, m, d)\<close>: the constructor checks its fields.\<close>

definition date_new :: "int \<Rightarrow> int \<Rightarrow> int \<Rightarrow> py_error + date" where
  "date_new y m d =
     (if \<not> (c_int y \<and> c_int m \<and> c_int d) then Inl OverflowError
      else if \<not> (1 \<le> y \<and> y \<le> 9999) then Inl DateValueError
      else if \<not> (1 \<le> m \<and> m \<le> 12) then Inl DateValueError
      else if \<not> (1 \<le> d \<and> d \<le> days_in_month y m) then Inl DateValueError
      else Inr (Date y m d))"

definition toordinal :: "date \<Rightarrow> int" where
  "toordinal dt = days_before_year (year dt) + days_before_month (year dt) (month dt) + day dt"

definition date_weekday :: "date \<Rightarrow> nat" where
  "date_weekday dt = nat ((toordinal dt + 6) mod 7)"

text \<open>\<open>calendar.weekday\<close>: 0 is Monday, 6 is Sunday; a year outside 1..9999 is
  replaced by one with the same calendar.\<close>

definition calendar_weekday :: "int \<Rightarrow> int \<Rightarrow> int \<Rightarrow> py_error + nat" where
  "calendar_weekday y m d =
     (let y' = (if 1 \<le> y \<and> y \<le> 9999 then y else 2000 + y mod 400)
      in case date_new y' m d of Inl e \<Rightarrow> Inl e | Inr dt \<Rightarrow> Inr (date_weekday dt))"

definition monthrange :: "int \<Rightarrow> int \<Rightarrow> py_error + (nat \<times> nat)" where
  "monthrange y m =
     (if \<not> (1 \<le> m \<and> m \<le> 12) then Inl (IllegalMonthError m)
      else case calendar_weekday y m 1 of
             Inl e \<Rightarrow> Inl e
           | Inr day1 \<Rightarrow> Inr (day1, mdays ! nat m + (if m = 2 \<and> isleap y then 1 else 0)))"

section \<open>The document\<close>

text \<open>
  python-docx is an external library. A document is the list of its blocks; a table is a
  grid of cells. Of a cell the model keeps its text, the fills of the shading elements
  appended to it, and how many grid columns it spans (0 for a cell absorbed by a merge).
  Widths, fonts, bold, alignment and the table style do not influence any text and are
  left out. Texts are taken to be ones the library accepts (it refuses control characters
  that XML cannot hold), so writing a cell that exists never fails.

  The objects are mutable and an exception leaves the changes made before it in place:
  a statement is a function from the state to an optional exception and the new state.
\<close>

record cell =
  cell_text :: string
  cell_shading :: "string list"
  cell_span :: nat

type_synonym table = "cell list list"

datatype block = Paragraph string | Table table

type_synonym document = "block list"

type_synonym 's stmt = "'s \<Rightarrow> py_error option \<times> 's"

primrec run_all :: "'s stmt list \<Rightarrow> 's stmt" where
  "run_all [] s = (None, s)"
| "run_all (c # cs) s = (case c s of (None, s') \<Rightarrow> run_all cs s' | (Some e, s') \<Rightarrow> (Some e, s'))"

definition for_each :: "'a list \<Rightarrow> ('a \<Rightarrow> 's stmt) \<Rightarrow> 's stmt" where
  "for_each xs body = run_all (map body xs)"

text \<open>A statement that first evaluates an expression that may raise.\<close>

definition eval_then :: "py_error + 'a \<Rightarrow> ('a \<Rightarrow> 's stmt) \<Rightarrow> 's stmt" where
  "eval_then r k s = (case r of Inl e \<Rightarrow> (Some e, s) | Inr v \<Rightarrow> k v s)"

definition index :: "'a list \<Rightarrow> nat \<Rightarrow> py_error + 'a" where
  "index xs i = (if i < length xs then Inr (xs ! i) else Inl IndexError)"

definition empty_cell :: cell where
  "empty_cell = \<lparr>cell_text = [], cell_shading = [], cell_span = 1\<rparr>"

definition new_table :: "nat \<Rightarrow> nat \<Rightarrow> table" where
  "new_table rows cols = replicate rows (replicate cols empty_cell)"

text \<open>\<open>table.cell(r, c)\<close> followed by an update of that cell.\<close>

definition on_cell :: "nat \<Rightarrow> nat \<Rightarrow> (cell \<Rightarrow> cell) \<Rightarrow> table stmt" where
  "on_cell r c f t =
     (if r < length t \<and> c < length (t ! r) then (None, t[r := (t ! r)[c := f (t ! r ! c)]])
      else (Some IndexError, t))"

definition set_text :: "nat \<Rightarrow> nat \<Rightarrow> string \<Rightarrow> table stmt" where
  "set_text r c s = on_cell r c (\<lambda>x. x\<lparr>cell_text := s\<rparr>)"

definition set_cell_shading :: "nat \<Rightarrow> nat \<Rightarrow> string \<Rightarrow> table stmt" where
  "set_cell_shading r c fill = on_cell r c (\<lambda>x. x\<lparr>cell_shading := cell_shading x @ [fill]\<rparr>)"

text \<open>\<open>a.merge(b)\<close> for two cells of one row: the left cell spans the range, the
  others are absorbed by it.\<close>

definition merge :: "nat \<Rightarrow> nat \<Rightarrow> nat \<Rightarrow> table stmt" where
  "merge r c1 c2 =
     run_all [on_cell r c1 (\<lambda>x. x\<lparr>cell_span := Suc c2 - c1\<rparr>),
              for_each [Suc c1..<Suc c2] (\<lambda>c. on_cell r c (\<lambda>x. x\<lparr>cell_span := 0\<rparr>))]"

section \<open>The sheet builder (generar\_planilla\_word.py)\<close>



subsection \<open>build\_table\<close>

definition SABADO :: string where
  "SABADO = ''S'' @ [CHR 0xC1] @ ''BADO''"

definition MANIANA :: string where
  "MANIANA = ''MA'' @ [CHR 0xD1] @ ''ANA''"

definition labels :: "string list" where
  "labels = [''DIAS'', ''ENTRADA'', ''FIRMA'', ''SALIDA'', ''FIRMA'',
             ''ENTRADA'', ''FIRMA'', ''SALIDA'', ''FIRMA'']"

text \<open>Lines 113 to 132: the two header rows.\<close>

definition header_rows :: "table stmt" where
  "header_rows =
     run_all
       [set_text 0 0 '''',
        merge 0 1 4, set_text 0 1 MANIANA,
        merge 0 5 8, set_text 0 5 ''TARDE'',
        for_each (enumerate 0 labels)
          (\<lambda>(c, txt). run_all [set_text 1 c txt, set_cell_shading 1 c ''EFEFEF''])]"

text \<open>The closure \<open>fill_dashes\<close> of the loop body, for the row \<open>r\<close> of its iteration.\<close>

definition fill_dashes :: "nat \<Rightarrow> table stmt" where
  "fill_dashes r =
     for_each [1..<9]
       (\<lambda>c. if c \<in> set [2, 4, 6, 8] then set_text r c '''' else set_text r c ''---'')"

text \<open>Python's truth value of \<open>notas_por_dia.get(d)\<close>: a note that is there and not
  empty.\<close>

definition truthy :: "string option \<Rightarrow> bool" where
  "truthy v = (case v of None \<Rightarrow> False | Some s \<Rightarrow> s \<noteq> [])"

text \<open>Lines 136 to 197: the body of the loop over the days, for the day \<open>d\<close>.\<close>

definition day_row ::
  "int \<Rightarrow> int \<Rightarrow> string list \<Rightarrow> string list \<Rightarrow> int list \<Rightarrow> (int \<rightharpoonup> string) \<Rightarrow> date set \<Rightarrow>
   nat \<Rightarrow> table stmt" where
  "day_row mes anio hora_maniana hora_tarde extras_dow notas_por_dia feriados d =
     (let r = 1 + d in
      eval_then (calendar_weekday anio mes (int d)) (\<lambda>dow.
      let is_weekend = (5 \<le> dow) in
      eval_then (date_new anio mes (int d)) (\<lambda>current_date.
      run_all
        [set_text r 0 (str_int (int d)),
         (let special_note = notas_por_dia (int d) in
          if is_weekend then
            run_all
              [set_text r 1 (if dow = 5 then SABADO else ''DOMINGO''),
               for_each [2..<9]
                 (\<lambda>c. if c \<in> set [2, 4, 6, 8] then set_text r c '''' else set_text r c ''---''),
               for_each [0..<9] (\<lambda>c. set_cell_shading r c ''F8F8F8'')]
          else if current_date \<in> feriados then
            run_all
              [set_text r 1 ''FERIADO'',
               fill_dashes r,
               for_each [0..<9] (\<lambda>c. set_cell_shading r c ''FFF2CC'')]
          else if truthy special_note then
            run_all
              [set_text r 1 (the special_note),
               fill_dashes r]
          else
            run_all
              [eval_then (index hora_maniana 0) (set_text r 1),
               eval_then (index hora_maniana 1) (set_text r 3),
               for_each [2, 4, 6, 8] (\<lambda>c. set_text r c ''''),
               if int dow \<in> set extras_dow then
                 run_all [eval_then (index hora_tarde 0) (set_text r 5),
                          eval_then (index hora_tarde 1) (set_text r 7)]
               else
                 run_all [set_text r 5 ''---'', set_text r 7 ''---'']])])))"

text \<open>\<open>notas_por_dia or {}\<close> and \<open>set(feriados or [])\<close>.\<close>

definition notas_or_empty :: "(int \<rightharpoonup> string) option \<Rightarrow> (int \<rightharpoonup> string)" where
  "notas_or_empty notas_por_dia = (case notas_por_dia of None \<Rightarrow> Map.empty | Some m \<Rightarrow> m)"

definition feriados_set :: "date list option \<Rightarrow> date set" where
  "feriados_set feriados = (case feriados of None \<Rightarrow> {} | Some ds \<Rightarrow> set ds)"

text \<open>Lines 113 to 197, on the table that line 102 has added to the document.\<close>

definition fill_table ::
  "int \<Rightarrow> int \<Rightarrow> string list \<Rightarrow> string list \<Rightarrow> int list \<Rightarrow> (int \<rightharpoonup> string) \<Rightarrow> date set \<Rightarrow>
   table stmt" where
  "fill_table mes anio hora_maniana hora_tarde extras_dow notas feriados =
     run_all
       [header_rows,
        eval_then (monthrange anio mes) (\<lambda>(day1, ndays).
          for_each [1..<ndays + 1]
            (day_row mes anio hora_maniana hora_tarde extras_dow notas feriados))]"

definition build_table ::
  "int \<Rightarrow> int \<Rightarrow> string list \<Rightarrow> string list \<Rightarrow> int list \<Rightarrow> (int \<rightharpoonup> string) option \<Rightarrow>
   date list option \<Rightarrow> document stmt" where
  "build_table mes anio hora_maniana hora_tarde extras_dow notas_por_dia feriados doc =
     (let notas = notas_or_empty notas_por_dia;
          fer = feriados_set feriados
      in case monthrange anio mes of
           Inl e \<Rightarrow> (Some e, doc)
         | Inr (day1, ndays) \<Rightarrow>
             (let rows = 2 + ndays; cols = 9 in
              case fill_table mes anio hora_maniana hora_tarde extras_dow notas fer
                     (new_table rows cols) of
                (Some e, t) \<Rightarrow> (Some e, doc @ [Table t])
              | (None, t) \<Rightarrow> (None, doc @ [Table t, Paragraph [CHR 0x5C]])))"


subsection \<open>parse\_date\_list and parse\_notes\<close>

text \<open>
  \<open>y, m, d = map(int, ...)\<close>: the three values are converted as they are taken, a fourth
  one is asked for to see that there is none, and the first failure is the exception.
\<close>

fun first_error :: "(py_error + 'a) list \<Rightarrow> py_error option" where
  "first_error [] = None"
| "first_error (Inl e # xs) = Some e"
| "first_error (Inr v # xs) = first_error xs"

definition unpack3 :: "(py_error + 'a) list \<Rightarrow> py_error + ('a \<times> 'a \<times> 'a)" where
  "unpack3 xs =
     (case first_error (take 4 xs) of
        Some e \<Rightarrow> Inl e
      | None \<Rightarrow> (case xs of [Inr y, Inr m, Inr d] \<Rightarrow> Inr (y, m, d) | _ \<Rightarrow> Inl UnpackError))"

text \<open>The body of the \<open>try\<close> of \<open>parse_date_list\<close>, for the stripped token.\<close>

definition date_of_token :: "string \<Rightarrow> py_error + date" where
  "date_of_token tok =
     (case unpack3 (map py_int (str_split CHR ''-'' tok)) of
        Inl e \<Rightarrow> Inl e
      | Inr (y, m, d) \<Rightarrow> date_new y m d)"

text \<open>\<open>None\<close> is Python's \<open>None\<close>, which \<open>if not text\<close> treats as the empty string.
  \<open>except Exception: pass\<close> drops every failure of the body.\<close>

definition parse_date_list :: "string option \<Rightarrow> date set" where
  "parse_date_list text =
     (case text of
        None \<Rightarrow> {}
      | Some s \<Rightarrow>
          if s = [] then {}
          else fold (\<lambda>tok out. case date_of_token (strip tok) of
                                  Inl e \<Rightarrow> out
                                | Inr dt \<Rightarrow> insert dt out)
                 (str_split CHR '','' s) {})"

definition parse_notes :: "string option \<Rightarrow> (int \<rightharpoonup> string)" where
  "parse_notes text =
     (case text of
        None \<Rightarrow> Map.empty
      | Some s \<Rightarrow>
          if s = [] then Map.empty
          else fold (\<lambda>tok out.
                   let tok = strip tok in
                   if CHR '':'' \<in> set tok then
                     (case str_split1 CHR '':'' tok of
                        (k, v) \<Rightarrow> (case py_int k of
                                      Inl e \<Rightarrow> out
                                    | Inr n \<Rightarrow> out(n \<mapsto> strip v)))
                   else out)
                 (str_split CHR '','' s) Map.empty)"

section \<open>The form's time validator (gui\_planilla.py)\<close>

definition FORMATO_INVALIDO :: string where
  "FORMATO_INVALIDO =
     ''Formato de hora inv'' @ [CHR 0xE1] @ ''lido. Use HH:MM,HH:MM (ej: 06:30,13:00)''"

definition HORA_INVALIDA :: string where
  "HORA_INVALIDA = ''Hora inv'' @ [CHR 0xE1] @ ''lida: ''"

definition HORA_FUERA_DE_RANGO :: string where
  "HORA_FUERA_DE_RANGO = ''Hora fuera de rango: ''"

text \<open>Lines 156 to 163: the body of the loop over \<open>(h1, h2)\<close>; \<open>None\<close> when it
  raises nothing.\<close>

definition check_hhmm :: "string \<Rightarrow> py_error option" where
  "check_hhmm hhmm =
     (let hhmm_parts = str_split CHR '':'' hhmm in
      if length hhmm_parts \<noteq> 2 then Some (ValueError (HORA_INVALIDA @ hhmm))
      else
        let hh = hhmm_parts ! 0; mm = hhmm_parts ! 1 in
        if \<not> (isdigit hh \<and> isdigit mm) then Some (ValueError (HORA_INVALIDA @ hhmm))
        else
          (case py_int hh of
             Inl e \<Rightarrow> Some e
           | Inr h \<Rightarrow>
               if \<not> (0 \<le> h \<and> h \<le> 23) then Some (ValueError (HORA_FUERA_DE_RANGO @ hhmm))
               else
                 (case py_int mm of
                    Inl e \<Rightarrow> Some e
                  | Inr m \<Rightarrow>
                      if \<not> (0 \<le> m \<and> m \<le> 59)
                      then Some (ValueError (HORA_FUERA_DE_RANGO @ hhmm))
                      else None)))"

fun check_all :: "string list \<Rightarrow> py_error option" where
  "check_all [] = None"
| "check_all (hhmm # rest) =
     (case check_hhmm hhmm of Some e \<Rightarrow> Some e | None \<Rightarrow> check_all rest)"

text \<open>\<open>PlanillaApp._parse_horas\<close> (it does not use \<open>self\<close>).\<close>

definition parse_horas :: "string \<Rightarrow> py_error + (string \<times> string)" where
  "parse_horas text =
     (let parts = map strip (str_split CHR '','' text) in
      if length parts \<noteq> 2 \<or> list_ex (\<lambda>p. CHR '':'' \<notin> set p) parts
      then Inl (ValueError FORMATO_INVALIDO)
      else
        let h1 = parts ! 0; h2 = parts ! 1 in
        (case check_all [h1, h2] of Some e \<Rightarrow> Inl e | None \<Rightarrow> Inr (h1, h2)))"

section \<open>Auxiliary predicates\<close>

text \<open>
  The predicates below are not part of the program; the results are stated with them.
  \<open>writes_row r t res Q\<close>: the statement whose result on the table \<open>t\<close> is \<open>res\<close>
  raised nothing, changed row \<open>r\<close> only, left it 9 cells wide and in a state that
  satisfies \<open>Q\<close>.
\<close>

definition writes_row ::
  "nat \<Rightarrow> table \<Rightarrow> py_error option \<times> table \<Rightarrow> (cell list \<Rightarrow> bool) \<Rightarrow> bool" where
  "writes_row r t res Q =
     (fst res = None \<and> snd res = t[r := snd res ! r] \<and> length (snd res ! r) = 9 \<and>
      Q (snd res ! r))"

text \<open>
  The texts of the row of day \<open>d\<close>, whose weekday is \<open>dow\<close>, once the loop body has
  run: the day number, then by case the label or the times, dashes and blanks.
\<close>

definition day_row_post ::
  "int \<Rightarrow> int \<Rightarrow> string list \<Rightarrow> string list \<Rightarrow> int list \<Rightarrow> (int \<rightharpoonup> string) \<Rightarrow> date set \<Rightarrow>
   nat \<Rightarrow> nat \<Rightarrow> cell list \<Rightarrow> bool" where
  "day_row_post mes anio hm ht extras notas fer d dow row =
    (cell_text (row ! 0) = str_int (int d) \<and>
     cell_text (row ! 2) = [] \<and> cell_text (row ! 4) = [] \<and>
     cell_text (row ! 6) = [] \<and> cell_text (row ! 8) = [] \<and>
     (if 5 \<le> dow then
        cell_text (row ! 1) = (if dow = 5 then SABADO else ''DOMINGO'') \<and>
        cell_text (row ! 3) = ''---'' \<and> cell_text (row ! 5) = ''---'' \<and>
        cell_text (row ! 7) = ''---''
      else if Date anio mes (int d) \<in> fer \<or> truthy (notas (int d)) then
        cell_text (row ! 1) = ''---'' \<and>
        cell_text (row ! 3) = ''---'' \<and> cell_text (row ! 5) = ''---'' \<and>
        cell_text (row ! 7) = ''---''
      else
        cell_text (row ! 1) = hm ! 0 \<and> cell_text (row ! 3) = hm ! 1 \<and>
        cell_text (row ! 5) = (if int dow \<in> set extras then ht ! 0 else ''---'') \<and>
        cell_text (row ! 7) = (if int dow \<in> set extras then ht ! 1 else ''---'')))"

definition day_ok ::
  "int \<Rightarrow> int \<Rightarrow> string list \<Rightarrow> string list \<Rightarrow> int list \<Rightarrow> (int \<rightharpoonup> string) \<Rightarrow> date set \<Rightarrow>
   nat \<Rightarrow> cell list \<Rightarrow> bool" where
  "day_ok mes anio hm ht extras notas fer d row =
     (case calendar_weekday anio mes (int d) of
        Inl e \<Rightarrow> False
      | Inr dow \<Rightarrow> dow < 7 \<and> day_row_post mes anio hm ht extras notas fer d dow row)"

text \<open>
  The entry that a token of the note list stands for, in the words of the specification:
  the token is trimmed and split at its first colon; the part before it is the day, an
  integer literal, and the part after it, trimmed, is the text. A token without a colon,
  or whose day is no integer literal, stands for no entry.
\<close>

definition note_entry :: "string \<Rightarrow> (int \<times> string) option" where
  "note_entry tok =
     (let t = strip tok in
      if CHR '':'' \<in> set t then
        (case py_int (takeWhile (\<lambda>c. c \<noteq> CHR '':'') t) of
           Inl e \<Rightarrow> None
         | Inr n \<Rightarrow> Some (n, strip (tl (dropWhile (\<lambda>c. c \<noteq> CHR '':'') t))))
      else None)"

text \<open>
  A numeric segment in the words of the specification, a non-empty run of decimal
  digits, and the number it denotes.
\<close>

definition numeric :: "string \<Rightarrow> bool" where
  "numeric s = (s \<noteq> [] \<and> list_all is_decimal s)"

definition decimal_value :: "string \<Rightarrow> nat" where
  "decimal_value s = foldl (\<lambda>a c. 10 * a + digit_value c) 0 s"

text \<open>
  \<open>too_many_digits s\<close>: the decimal digits that \<open>s\<close> begins with are more than
  \<open>int()\<close> converts. \<open>valid_time hh mm\<close>: an hour and a minute in the words of the
  specification, numeric segments in range, which \<open>int()\<close> is able to convert.
\<close>

definition too_many_digits :: "string \<Rightarrow> bool" where
  "too_many_digits s = (int_max_str_digits < length (takeWhile is_decimal s))"

definition valid_time :: "string \<Rightarrow> string \<Rightarrow> bool" where
  "valid_time hh mm =
     (numeric hh \<and> numeric mm \<and>
      length hh \<le> int_max_str_digits \<and> length mm \<le> int_max_str_digits \<and>
      decimal_value hh \<le> 23 \<and> decimal_value mm \<le> 59)"

text \<open>\<open>occurs_in tok msg\<close>: the message \<open>msg\<close> names the token \<open>tok\<close>, that is, \<open>tok\<close>
  is a contiguous part of it.\<close>

fun occurs_in :: "string \<Rightarrow> string \<Rightarrow> bool" where
  "occurs_in tok [] = (tok = [])"
| "occurs_in tok (c # cs) = (take (length tok) (c # cs) = tok \<or> occurs_in tok cs)"

section \<open>Properties\<close>

subsection \<open>Statements, loops and the calendar\<close>

lemma str_nat_small: "n < 10 \<Longrightarrow> str_nat n = [digit_char n]"
  by (simp add: str_nat.simps)


lemma on_cell_ok:
  "r < length t \<Longrightarrow> c < length (t ! r) \<Longrightarrow>
   on_cell r c f t = (None, t[r := (t ! r)[c := f (t ! r ! c)]])"
  by (simp add: on_cell_def)

lemma upt_2_9: "[2..<9] = [2, 3, 4, 5, 6, 7, 8::nat]"
  by (simp add: upt_rec)

lemma upt_1_9: "[Suc 0..<9] = [1, 2, 3, 4, 5, 6, 7, 8::nat]"
  by (simp add: upt_rec)

lemma upt_0_9: "[0..<9] = [0, 1, 2, 3, 4, 5, 6, 7, 8::nat]"
  by (simp add: upt_rec)

lemma day_row_writes:
  assumes "Suc d < length t" "length (t ! Suc d) = 9"
    and "calendar_weekday anio mes (int d) = Inr dow"
    and "date_new anio mes (int d) = Inr (Date anio mes (int d))"
    and "2 \<le> length hm" "2 \<le> length ht"
  shows "writes_row (Suc d) t (day_row mes anio hm ht extras notas fer d t)
           (day_row_post mes anio hm ht extras notas fer d dow)"
proof -
  note defs = day_row_def eval_then_def for_each_def set_text_def set_cell_shading_def
      on_cell_ok upt_1_9 upt_2_9 upt_0_9 writes_row_def day_row_post_def fill_dashes_def
      index_def Let_def
  consider (weekend) "5 \<le> dow"
    | (holiday) "\<not> 5 \<le> dow" "Date anio mes (int d) \<in> fer"
    | (with_note) "\<not> 5 \<le> dow" "Date anio mes (int d) \<notin> fer" "truthy (notas (int d))"
    | (regular) "\<not> 5 \<le> dow" "Date anio mes (int d) \<notin> fer" "\<not> truthy (notas (int d))"
    by blast
  then show ?thesis
  proof cases
    case weekend
    with assms show ?thesis by (simp add: defs)
  next
    case holiday
    with assms show ?thesis by (simp add: defs)
  next
    case with_note
    with assms show ?thesis by (simp add: defs)
  next
    case regular
    from assms have "hm \<noteq> []" "ht \<noteq> []" "Suc 0 < length hm" "Suc 0 < length ht"
      by auto
    with regular assms show ?thesis by (simp add: defs)
  qed
qed


lemma for_each_Nil: "for_each [] body t = (None, t)"
  by (simp add: for_each_def)

lemma for_each_Cons:
  "for_each (x # xs) body t =
     (case body x t of (None, t') \<Rightarrow> for_each xs body t' | (Some e, t') \<Rightarrow> (Some e, t'))"
  by (simp add: for_each_def split: prod.splits option.splits)

lemma for_each_rows:
  assumes step: "\<And>d t. d \<in> set ds \<Longrightarrow> Suc d < length t \<Longrightarrow> length (t ! Suc d) = 9 \<Longrightarrow>
                   writes_row (Suc d) t (body d t) (Q d)"
    and "distinct ds" and "\<forall>d\<in>set ds. Suc d < length t \<and> length (t ! Suc d) = 9"
  shows "\<exists>t'. for_each ds body t = (None, t') \<and> length t' = length t \<and>
           (\<forall>d\<in>set ds. length (t' ! Suc d) = 9 \<and> Q d (t' ! Suc d)) \<and>
           (\<forall>i. i \<notin> Suc ` set ds \<longrightarrow> t' ! i = t ! i)"
  using assms
proof (induction ds arbitrary: t)
  case Nil
  then show ?case by (simp add: for_each_Nil)
next
  case (Cons d ds)
  obtain e t1 where bd: "body d t = (e, t1)" by (cases "body d t")
  from Cons.prems have dt: "Suc d < length t" "length (t ! Suc d) = 9" by auto
  have "writes_row (Suc d) t (body d t) (Q d)"
    by (rule Cons.prems(1)) (use dt in auto)
  with bd have e: "e = None" and t1: "t1 = t[Suc d := t1 ! Suc d]"
    and len: "length (t1 ! Suc d) = 9" and q: "Q d (t1 ! Suc d)"
    by (auto simp: writes_row_def)
  from t1 have lt: "length t1 = length t" by (metis length_list_update)
  have other: "t1 ! i = t ! i" if "i \<noteq> Suc d" for i
    using t1 that by (metis nth_list_update_neq)
  have pre: "\<forall>d'\<in>set ds. Suc d' < length t1 \<and> length (t1 ! Suc d') = 9"
  proof
    fix d' assume d': "d' \<in> set ds"
    with Cons.prems(2) have "Suc d' \<noteq> Suc d" by auto
    then have "t1 ! Suc d' = t ! Suc d'" by (rule other)
    with d' Cons.prems(3) lt show "Suc d' < length t1 \<and> length (t1 ! Suc d') = 9" by simp
  qed
  have "\<exists>t'. for_each ds body t1 = (None, t') \<and> length t' = length t1 \<and>
           (\<forall>d\<in>set ds. length (t' ! Suc d) = 9 \<and> Q d (t' ! Suc d)) \<and>
           (\<forall>i. i \<notin> Suc ` set ds \<longrightarrow> t' ! i = t1 ! i)"
  proof (rule Cons.IH)
    show "writes_row (Suc d') u (body d' u) (Q d')"
      if "d' \<in> set ds" "Suc d' < length u" "length (u ! Suc d') = 9" for d' u
      using that Cons.prems(1) by simp
    show "distinct ds" using Cons.prems(2) by simp
    show "\<forall>d'\<in>set ds. Suc d' < length t1 \<and> length (t1 ! Suc d') = 9" by (rule pre)
  qed
  then obtain t' where r: "for_each ds body t1 = (None, t')" "length t' = length t1"
      "\<forall>d\<in>set ds. length (t' ! Suc d) = 9 \<and> Q d (t' ! Suc d)"
      "\<forall>i. i \<notin> Suc ` set ds \<longrightarrow> t' ! i = t1 ! i"
    by blast
  have dn: "Suc d \<notin> Suc ` set ds" using Cons.prems(2) by auto
  with r(4) have same: "t' ! Suc d = t1 ! Suc d" by blast
  have "for_each (d # ds) body t = (None, t')"
    using bd e r(1) by (simp add: for_each_Cons)
  moreover have "length t' = length t" using r(2) lt by simp
  moreover have "\<forall>x\<in>set (d # ds). length (t' ! Suc x) = 9 \<and> Q x (t' ! Suc x)"
    using r(3) same len q by simp
  moreover have "\<forall>i. i \<notin> Suc ` set (d # ds) \<longrightarrow> t' ! i = t ! i"
    using r(4) other by auto
  ultimately show ?case by blast
qed

lemma mod_shift:
  fixes y :: int
  assumes "k dvd 400" "k dvd 2000"
  shows "(2000 + y mod 400) mod k = y mod k"
proof -
  from assms(2) obtain q where q: "2000 = k * q" by (auto simp: dvd_def)
  have "(2000 + y mod 400) mod k = (k * q + y mod 400) mod k" by (simp only: q)
  also have "\<dots> = (y mod 400) mod k" by (rule mod_mult_self4)
  also have "\<dots> = y mod k" using assms(1) by (rule mod_mod_cancel)
  finally show ?thesis .
qed

lemma isleap_shift: "isleap (2000 + y mod 400) = isleap y"
proof -
  have "(2000 + y mod 400) mod 4 = y mod 4" "(2000 + y mod 400) mod 100 = y mod 100"
    "(2000 + y mod 400) mod 400 = y mod 400"
    by (rule mod_shift; simp)+
  then show ?thesis by (simp only: isleap_def)
qed

lemma year_shift_range: "1 \<le> 2000 + (y::int) mod 400 \<and> 2000 + y mod 400 \<le> 9999"
proof -
  have "0 \<le> y mod 400" "y mod 400 < 400" by simp_all
  then show ?thesis by arith
qed

lemma days_in_month_bounds:
  assumes "1 \<le> m" "m \<le> 12"
  shows "28 \<le> days_in_month y m \<and> days_in_month y m \<le> 31"
proof -
  from assms have "m = 1 \<or> m = 2 \<or> m = 3 \<or> m = 4 \<or> m = 5 \<or> m = 6 \<or> m = 7 \<or> m = 8 \<or>
      m = 9 \<or> m = 10 \<or> m = 11 \<or> m = 12" by arith
  then show ?thesis
    by (elim disjE) (simp_all add: days_in_month_def mdays_def)
qed

lemma date_new_valid:
  assumes "1 \<le> y" "y \<le> 9999" "1 \<le> m" "m \<le> 12" "1 \<le> d" "d \<le> days_in_month y m"
  shows "date_new y m d = Inr (Date y m d)"
  using assms days_in_month_bounds [of m y] by (simp add: date_new_def c_int_def)

lemma calendar_weekday_valid:
  assumes "1 \<le> m" "m \<le> 12" "1 \<le> d" "d \<le> days_in_month y m"
  shows "\<exists>dow. calendar_weekday y m d = Inr dow \<and> dow < 7"
proof (cases "1 \<le> y \<and> y \<le> 9999")
  case True
  with assms show ?thesis
    by (simp add: calendar_weekday_def date_new_valid date_weekday_def)
next
  case False
  have "days_in_month (2000 + y mod 400) m = days_in_month y m"
    by (simp only: days_in_month_def isleap_shift)
  moreover have "1 \<le> 2000 + y mod 400" "2000 + y mod 400 \<le> 9999"
    using year_shift_range [of y] by simp_all
  ultimately have "date_new (2000 + y mod 400) m d = Inr (Date (2000 + y mod 400) m d)"
    using assms by (intro date_new_valid) simp_all
  with False show ?thesis
    by (auto simp: calendar_weekday_def date_weekday_def)
qed

lemma monthrange_valid:
  assumes "1 \<le> m" "m \<le> 12"
  shows "\<exists>w n. monthrange y m = Inr (w, n) \<and> int n = days_in_month y m \<and> 28 \<le> n \<and> n \<le> 31"
proof -
  from days_in_month_bounds [OF assms, of y] have "1 \<le> days_in_month y m" by simp
  from calendar_weekday_valid [OF assms _ this] obtain w where
    w: "calendar_weekday y m 1 = Inr w" by auto
  from assms have "m = 1 \<or> m = 2 \<or> m = 3 \<or> m = 4 \<or> m = 5 \<or> m = 6 \<or> m = 7 \<or> m = 8 \<or>
      m = 9 \<or> m = 10 \<or> m = 11 \<or> m = 12" by arith
  then show ?thesis
    using w by (elim disjE) (simp_all add: monthrange_def days_in_month_def mdays_def)
qed


lemma cell_text_empty: "cell_text empty_cell = []"
  by (simp add: empty_cell_def)

lemma replicate_9: "replicate 9 x = [x, x, x, x, x, x, x, x, x]"
  by (simp add: eval_nat_numeral)

lemma new_table_rows: "new_table (2 + n) 9 = replicate 9 empty_cell # replicate 9 empty_cell # replicate n (replicate 9 empty_cell)"
  by (simp add: new_table_def)

lemma header_rows_new:
  "fst (header_rows (new_table (2 + n) 9)) = None \<and>
   length (snd (header_rows (new_table (2 + n) 9))) = 2 + n \<and>
   drop 2 (snd (header_rows (new_table (2 + n) 9))) = replicate n (replicate 9 empty_cell) \<and>
   map cell_text (snd (header_rows (new_table (2 + n) 9)) ! 0) =
     [[], MANIANA, [], [], [], ''TARDE'', [], [], []] \<and>
   map cell_text (snd (header_rows (new_table (2 + n) 9)) ! 1) = labels"
  unfolding new_table_rows
  by (simp add: header_rows_def merge_def for_each_def set_text_def set_cell_shading_def
      on_cell_def upt_rec labels_def replicate_9 cell_text_empty)

lemma writes_row_mono:
  "writes_row r t res P \<Longrightarrow> (\<And>row. P row \<Longrightarrow> Q row) \<Longrightarrow> writes_row r t res Q"
  by (simp add: writes_row_def)

lemma fill_table_ok:
  assumes valid: "1 \<le> mes" "mes \<le> 12" "1 \<le> anio" "anio \<le> 9999"
    and sched: "2 \<le> length hm" "2 \<le> length ht"
    and mr: "monthrange anio mes = Inr (w, n)"
  shows "\<exists>t. fill_table mes anio hm ht extras notas fer (new_table (2 + n) 9) = (None, t) \<and>
           length t = 2 + n \<and>
           map cell_text (t ! 0) = [[], MANIANA, [], [], [], ''TARDE'', [], [], []] \<and>
           map cell_text (t ! 1) = labels \<and>
           (\<forall>d\<in>set [1..<n + 1]. length (t ! Suc d) = 9 \<and>
              day_ok mes anio hm ht extras notas fer d (t ! Suc d))"
proof -
  let ?T = "new_table (2 + n) 9"
  let ?body = "day_row mes anio hm ht extras notas fer"
  obtain e1 t1 where h: "header_rows ?T = (e1, t1)" by (cases "header_rows ?T")
  with header_rows_new [of n] have e1: "e1 = None" and lt1: "length t1 = 2 + n"
    and rest: "drop 2 t1 = replicate n (replicate 9 empty_cell)"
    and h0: "map cell_text (t1 ! 0) = [[], MANIANA, [], [], [], ''TARDE'', [], [], []]"
    and h1: "map cell_text (t1 ! 1) = labels"
    by simp_all
  from monthrange_valid [OF valid(1,2), of anio] mr
  have n: "int n = days_in_month anio mes" by simp
  have rows: "\<forall>d\<in>set [1..<n + 1]. Suc d < length t1 \<and> length (t1 ! Suc d) = 9"
  proof
    fix d assume "d \<in> set [1..<n + 1]"
    then have d: "1 \<le> d" "d \<le> n" by auto
    then have "drop 2 t1 ! (d - 1) = t1 ! Suc d" using lt1 by (simp add: nth_drop)
    with rest d have "t1 ! Suc d = replicate 9 empty_cell" by simp
    with d lt1 show "Suc d < length t1 \<and> length (t1 ! Suc d) = 9" by simp
  qed
  have "\<exists>t'. for_each [1..<n + 1] ?body t1 = (None, t') \<and> length t' = length t1 \<and>
           (\<forall>d\<in>set [1..<n + 1]. length (t' ! Suc d) = 9 \<and>
              day_ok mes anio hm ht extras notas fer d (t' ! Suc d)) \<and>
           (\<forall>i. i \<notin> Suc ` set [1..<n + 1] \<longrightarrow> t' ! i = t1 ! i)"
  proof (rule for_each_rows)
    fix d and u :: table
    assume "d \<in> set [1..<n + 1]" and u: "Suc d < length u" "length (u ! Suc d) = 9"
    then have d: "1 \<le> int d" "int d \<le> days_in_month anio mes" using n by auto
    from calendar_weekday_valid [OF valid(1,2) d] obtain dow where
      dow: "calendar_weekday anio mes (int d) = Inr dow" "dow < 7" by blast
    have dn: "date_new anio mes (int d) = Inr (Date anio mes (int d))"
      using valid d by (intro date_new_valid) simp_all
    have "writes_row (Suc d) u (?body d u) (day_row_post mes anio hm ht extras notas fer d dow)"
      using u dow(1) dn sched by (rule day_row_writes)
    then show "writes_row (Suc d) u (?body d u) (day_ok mes anio hm ht extras notas fer d)"
      by (rule writes_row_mono) (simp add: day_ok_def dow)
  next
    show "distinct [1..<n + 1]" by simp
    show "\<forall>d\<in>set [1..<n + 1]. Suc d < length t1 \<and> length (t1 ! Suc d) = 9" by (rule rows)
  qed
  then obtain t' where t': "for_each [1..<n + 1] ?body t1 = (None, t')" "length t' = length t1"
      "\<forall>d\<in>set [1..<n + 1]. length (t' ! Suc d) = 9 \<and>
              day_ok mes anio hm ht extras notas fer d (t' ! Suc d)"
      "\<forall>i. i \<notin> Suc ` set [1..<n + 1] \<longrightarrow> t' ! i = t1 ! i"
    by blast
  have "0 \<notin> Suc ` set [1..<n + 1]" "1 \<notin> Suc ` set [1..<n + 1]" by auto
  with t'(4) have "t' ! 0 = t1 ! 0" "t' ! 1 = t1 ! 1" by blast+
  moreover have "fill_table mes anio hm ht extras notas fer ?T = (None, t')"
    using h e1 mr t'(1) by (simp add: fill_table_def eval_then_def)
  ultimately show ?thesis using t'(2,3) lt1 h0 h1 by auto
qed

lemma build_table_ok:
  assumes valid: "1 \<le> mes" "mes \<le> 12" "1 \<le> anio" "anio \<le> 9999"
    and sched: "2 \<le> length hm" "2 \<le> length ht"
    and mr: "monthrange anio mes = Inr (w, n)"
  shows "\<exists>t. build_table mes anio hm ht extras notas feriados doc =
             (None, doc @ [Table t, Paragraph [CHR 0x5C]]) \<and>
           length t = 2 + n \<and>
           map cell_text (t ! 0) = [[], MANIANA, [], [], [], ''TARDE'', [], [], []] \<and>
           map cell_text (t ! 1) = labels \<and>
           (\<forall>d\<in>set [1..<n + 1]. length (t ! Suc d) = 9 \<and>
              day_ok mes anio hm ht extras (notas_or_empty notas) (feriados_set feriados) d
                (t ! Suc d))"
  using fill_table_ok [OF assms, of extras "notas_or_empty notas" "feriados_set feriados"] mr
  by (auto simp: build_table_def)

lemma date_new_range:
  assumes "1 \<le> m" "m \<le> 12" "1 \<le> y" "y \<le> 9999"
  shows "(\<exists>dt. date_new y m d = Inr dt) \<longleftrightarrow> (1 \<le> d \<and> d \<le> days_in_month y m)"
  using assms days_in_month_bounds [of m y] by (simp add: date_new_def c_int_def)

lemma day_ok_dest:
  assumes "day_ok mes anio hm ht extras notas fer d row"
  shows "\<exists>dow. calendar_weekday anio mes (int d) = Inr dow \<and> dow < 7 \<and>
           day_row_post mes anio hm ht extras notas fer d dow row"
  using assms by (cases "calendar_weekday anio mes (int d)") (simp_all add: day_ok_def)

text \<open>
  The table that \<open>build_table\<close> appends for a valid month and year and a schedule of
  two times each: every day row, with the weekday of its day.
\<close>

lemma build_table_days:
  assumes valid: "1 \<le> mes" "mes \<le> 12" "1 \<le> anio" "anio \<le> 9999"
    and sched: "2 \<le> length hm" "2 \<le> length ht"
    and mr: "monthrange anio mes = Inr (w, n)"
  shows "\<exists>t. build_table mes anio hm ht extras notas feriados doc =
             (None, doc @ [Table t, Paragraph [CHR 0x5C]]) \<and>
           length t = 2 + n \<and>
           map cell_text (t ! 0) = [[], MANIANA, [], [], [], ''TARDE'', [], [], []] \<and>
           map cell_text (t ! 1) = labels \<and>
           (\<forall>d. 1 \<le> d \<longrightarrow> d \<le> n \<longrightarrow>
              length (t ! Suc d) = 9 \<and>
              (\<exists>dow. calendar_weekday anio mes (int d) = Inr dow \<and> dow < 7 \<and>
                 day_row_post mes anio hm ht extras (notas_or_empty notas)
                   (feriados_set feriados) d dow (t ! Suc d)))"
proof -
  from build_table_ok [OF assms, of extras notas feriados doc] obtain t where
    t: "build_table mes anio hm ht extras notas feriados doc =
          (None, doc @ [Table t, Paragraph [CHR 0x5C]])"
      "length t = 2 + n"
      "map cell_text (t ! 0) = [[], MANIANA, [], [], [], ''TARDE'', [], [], []]"
      "map cell_text (t ! 1) = labels"
    and rows: "\<forall>d\<in>set [1..<n + 1]. length (t ! Suc d) = 9 \<and>
              day_ok mes anio hm ht extras (notas_or_empty notas)
                (feriados_set feriados) d (t ! Suc d)"
    by (elim exE conjE)
  have day: "length (t ! Suc d) = 9 \<and>
        (\<exists>dow. calendar_weekday anio mes (int d) = Inr dow \<and> dow < 7 \<and>
           day_row_post mes anio hm ht extras (notas_or_empty notas)
             (feriados_set feriados) d dow (t ! Suc d))"
    if "1 \<le> d" "d \<le> n" for d
  proof -
    from that have "d \<in> set [1..<n + 1]" by auto
    with rows have "length (t ! Suc d) = 9"
      "day_ok mes anio hm ht extras (notas_or_empty notas) (feriados_set feriados) d (t ! Suc d)"
      by blast+
    then show ?thesis by (simp add: day_ok_dest)
  qed
  show ?thesis
    by (rule exI [of _ t], intro conjI allI impI)
      (fact t | rule day [THEN conjunct1] day [THEN conjunct2], assumption+)+
qed

lemma monthrange_2025_9: "monthrange 2025 9 = Inr (0, 30)"
  by code_simp

subsection \<open>The rows of the sheet\<close>

text \<open>
  Claim C1. For a month from 1 to 12, a year from 1 to 9999 (the years of a \<open>date\<close>) and
  a schedule that gives two times for the morning and two for the afternoon,
  \<open>build_table\<close> raises nothing and appends one table and a closing paragraph. The
  table has the two header rows, then one row for each day of the month and no other:
  \<open>ndays\<close> rows, where \<open>ndays\<close> is between 28 and 31 and \<open>d\<close> is a day of that month
  and year exactly when it is between 1 and \<open>ndays\<close>. The row at index \<open>1 + d\<close> is nine
  cells wide and starts with the number \<open>d\<close>: the days come in increasing order.
\<close>

theorem sheet_rows:
  assumes "1 \<le> mes" "mes \<le> 12" "1 \<le> anio" "anio \<le> 9999"
    and "2 \<le> length hora_maniana" "2 \<le> length hora_tarde"
  shows "\<exists>day1 ndays t.
           monthrange anio mes = Inr (day1, ndays) \<and> 28 \<le> ndays \<and> ndays \<le> 31 \<and>
           (\<forall>d. (\<exists>dt. date_new anio mes d = Inr dt) \<longleftrightarrow> (1 \<le> d \<and> d \<le> int ndays)) \<and>
           build_table mes anio hora_maniana hora_tarde extras_dow notas_por_dia feriados doc =
             (None, doc @ [Table t, Paragraph [CHR 0x5C]]) \<and>
           length t = 2 + ndays \<and>
           map cell_text (t ! 0) = [[], MANIANA, [], [], [], ''TARDE'', [], [], []] \<and>
           map cell_text (t ! 1) = labels \<and>
           (\<forall>d. 1 \<le> d \<and> d \<le> ndays \<longrightarrow>
              length (t ! (1 + d)) = 9 \<and> cell_text (t ! (1 + d) ! 0) = str_int (int d))"
proof -
  from monthrange_valid [OF assms(1,2), of anio] obtain w n where
    mr: "monthrange anio mes = Inr (w, n)" and n: "int n = days_in_month anio mes"
      "28 \<le> n" "n \<le> 31"
    by blast
  from build_table_days [OF assms mr, of extras_dow notas_por_dia feriados doc] obtain t where
    t: "build_table mes anio hora_maniana hora_tarde extras_dow notas_por_dia feriados doc =
          (None, doc @ [Table t, Paragraph [CHR 0x5C]])"
      "length t = 2 + n"
      "map cell_text (t ! 0) = [[], MANIANA, [], [], [], ''TARDE'', [], [], []]"
      "map cell_text (t ! 1) = labels"
    and rows: "\<forall>d. 1 \<le> d \<longrightarrow> d \<le> n \<longrightarrow>
              length (t ! Suc d) = 9 \<and>
              (\<exists>dow. calendar_weekday anio mes (int d) = Inr dow \<and> dow < 7 \<and>
                 day_row_post mes anio hora_maniana hora_tarde extras_dow
                   (notas_or_empty notas_por_dia) (feriados_set feriados) d dow (t ! Suc d))"
    by (elim exE conjE)
  have days: "\<forall>d. 1 \<le> d \<and> d \<le> n \<longrightarrow>
      length (t ! (1 + d)) = 9 \<and> cell_text (t ! (1 + d) ! 0) = str_int (int d)"
    using rows by (auto simp: day_row_post_def)
  have valid: "\<forall>d. (\<exists>dt. date_new anio mes d = Inr dt) \<longleftrightarrow> (1 \<le> d \<and> d \<le> int n)"
    using date_new_range [OF assms(1-4)] n(1) by simp
  show ?thesis
    by (rule exI [of _ w], rule exI [of _ n], rule exI [of _ t], intro conjI)
      (fact mr n valid t days)+
qed

text \<open>September 2025 with the default schedule: 2 + 30 rows, days 1 to 30.\<close>

theorem sheet_rows_witness:
  "\<exists>t. build_table 9 2025 [''6:30'', ''13:00''] [''16:00'', ''19:00''] [1, 3] None None [] =
          (None, [Table t, Paragraph [CHR 0x5C]]) \<and>
        length t = 32 \<and> map cell_text (t ! 1) = labels \<and>
        cell_text (t ! 2 ! 0) = ''1'' \<and> cell_text (t ! 31 ! 0) = ''30''"
proof -
  have s1: "str_int 1 = ''1''" and s30: "str_int 30 = ''30''" by code_simp+
  from sheet_rows [of 9 2025 "[''6:30'', ''13:00'']" "[''16:00'', ''19:00'']" "[1, 3]" None None "[]"]
  obtain t where t: "build_table 9 2025 [''6:30'', ''13:00''] [''16:00'', ''19:00''] [1, 3] None None [] =
          (None, [Table t, Paragraph [CHR 0x5C]])" "length t = 32" "map cell_text (t ! 1) = labels"
     "\<forall>d. 1 \<le> d \<and> d \<le> 30 \<longrightarrow>
              length (t ! (1 + d)) = 9 \<and> cell_text (t ! (1 + d) ! 0) = str_int (int d)"
    by (auto simp: monthrange_2025_9)
  from t(4) [THEN spec, of 1] t(4) [THEN spec, of 30]
  have "cell_text (t ! 2 ! 0) = str_int 1" "cell_text (t ! 31 ! 0) = str_int 30"
    by (simp_all add: numeral_2_eq_2)
  with t(1-3) show ?thesis by (auto simp: s1 s30)
qed

lemma build_table_row:
  assumes valid: "1 \<le> mes" "mes \<le> 12" "1 \<le> anio" "anio \<le> 9999"
    and sched: "2 \<le> length hm" "2 \<le> length ht"
    and mr: "monthrange anio mes = Inr (w, n)"
    and d: "1 \<le> d" "d \<le> n"
    and dow: "calendar_weekday anio mes (int d) = Inr dow"
  shows "\<exists>t. build_table mes anio hm ht extras notas feriados doc =
             (None, doc @ [Table t, Paragraph [CHR 0x5C]]) \<and>
           length t = 2 + n \<and> length (t ! (1 + d)) = 9 \<and> dow < 7 \<and>
           day_row_post mes anio hm ht extras (notas_or_empty notas)
             (feriados_set feriados) d dow (t ! (1 + d))"
proof -
  from build_table_days [OF valid sched mr, of extras notas feriados doc] obtain t where
    t: "build_table mes anio hm ht extras notas feriados doc =
          (None, doc @ [Table t, Paragraph [CHR 0x5C]])"
      "length t = 2 + n"
    and rows: "\<forall>d. 1 \<le> d \<longrightarrow> d \<le> n \<longrightarrow>
              length (t ! Suc d) = 9 \<and>
              (\<exists>dow. calendar_weekday anio mes (int d) = Inr dow \<and> dow < 7 \<and>
                 day_row_post mes anio hm ht extras (notas_or_empty notas)
                   (feriados_set feriados) d dow (t ! Suc d))"
    by (elim exE conjE)
  from rows d dow have "length (t ! (1 + d)) = 9" "dow < 7"
    "day_row_post mes anio hm ht extras (notas_or_empty notas)
       (feriados_set feriados) d dow (t ! (1 + d))"
    by auto
  with t show ?thesis by (intro exI [of _ t] conjI)
qed

lemma str_int_two_digits:
  assumes "d < 100"
  shows "str_int (int d) =
           (if d < 10 then [digit_char d] else [digit_char (d div 10), digit_char (d mod 10)])"
  using assms by (simp add: str_int_def str_nat.simps [of d] str_nat_small)

subsection \<open>The day number\<close>

text \<open>
  Claim C10. In the table built for a valid month and year, the first cell (column 0) of
  the row of every day \<open>d\<close> of the month holds \<open>str(d)\<close>, the decimal numeral of
  \<open>d\<close> (one digit below 10, else the tens digit and the units digit), whatever the
  weekday of the day and whatever the notes, the holidays and the afternoon weekdays are.
\<close>

theorem day_number_column:
  assumes "1 \<le> mes" "mes \<le> 12" "1 \<le> anio" "anio \<le> 9999"
    and "2 \<le> length hora_maniana" "2 \<le> length hora_tarde"
    and "monthrange anio mes = Inr (day1, ndays)"
    and "1 \<le> d" "d \<le> ndays"
  shows "\<exists>t. build_table mes anio hora_maniana hora_tarde extras_dow notas_por_dia feriados doc =
             (None, doc @ [Table t, Paragraph [CHR 0x5C]]) \<and>
           cell_text (t ! (1 + d) ! 0) = str_int (int d) \<and>
           str_int (int d) =
             (if d < 10 then [digit_char d] else [digit_char (d div 10), digit_char (d mod 10)])"
proof -
  from monthrange_valid [OF assms(1,2), of anio] assms(7) have "ndays \<le> 31" by auto
  with assms(9) have "d < 100" by simp
  then have digits: "str_int (int d) =
      (if d < 10 then [digit_char d] else [digit_char (d div 10), digit_char (d mod 10)])"
    by (rule str_int_two_digits)
  have "1 \<le> int d" "int d \<le> days_in_month anio mes"
    using assms(8,9) monthrange_valid [OF assms(1,2), of anio] assms(7) by auto
  from calendar_weekday_valid [OF assms(1,2) this] obtain dow where
    "calendar_weekday anio mes (int d) = Inr dow" by blast
  from build_table_row [OF assms(1-9) this, of extras_dow notas_por_dia feriados doc]
  obtain t where "build_table mes anio hora_maniana hora_tarde extras_dow notas_por_dia feriados doc =
             (None, doc @ [Table t, Paragraph [CHR 0x5C]])"
    "cell_text (t ! (1 + d) ! 0) = str_int (int d)"
    by (auto simp: day_row_post_def)
  with digits show ?thesis by (intro exI [of _ t] conjI)
qed

text \<open>September 2025 with a holiday on the 15th and a note on the 16th: a Saturday (6),
  the holiday, the day with the note and a regular day (17) all start with their number.\<close>

theorem day_number_column_witness:
  "\<exists>t. build_table 9 2025 [''6:30'', ''13:00''] [''16:00'', ''19:00''] [1, 3]
          (Some [16 \<mapsto> ''LICENCIA'']) (Some [Date 2025 9 15]) [] =
          (None, [Table t, Paragraph [CHR 0x5C]]) \<and>
        cell_text (t ! 7 ! 0) = ''6'' \<and> cell_text (t ! 16 ! 0) = ''15'' \<and>
        cell_text (t ! 17 ! 0) = ''16'' \<and> cell_text (t ! 18 ! 0) = ''17''"
proof -
  let ?b = "build_table 9 2025 [''6:30'', ''13:00''] [''16:00'', ''19:00''] [1, 3]
          (Some [16 \<mapsto> ''LICENCIA'']) (Some [Date 2025 9 15]) []"
  have col: "\<exists>t. ?b = (None, [Table t, Paragraph [CHR 0x5C]]) \<and>
           cell_text (t ! (1 + d) ! 0) = str_int (int d)" if "1 \<le> d" "d \<le> 30" for d
    using day_number_column [of 9 2025 "[''6:30'', ''13:00'']" "[''16:00'', ''19:00'']" 0 30 d
        "[1, 3]" "Some [16 \<mapsto> ''LICENCIA'']" "Some [Date 2025 9 15]" "[]"] that
    by (auto simp: monthrange_2025_9)
  have s: "str_int 6 = ''6''" "str_int 15 = ''15''" "str_int 16 = ''16''" "str_int 17 = ''17''"
    by code_simp+
  from col [of 6] col [of 15] col [of 16] col [of 17] show ?thesis
    by (auto simp: s)
qed

subsection \<open>Regular workdays\<close>

lemma weekdays_2025_9:
  "calendar_weekday 2025 9 1 = Inr 0" "calendar_weekday 2025 9 2 = Inr 1"
  "calendar_weekday 2025 9 6 = Inr 5" "calendar_weekday 2025 9 7 = Inr 6"
  "calendar_weekday 2025 9 15 = Inr 0" "calendar_weekday 2025 9 16 = Inr 1"
  "calendar_weekday 2025 9 20 = Inr 5"
  by code_simp+

text \<open>
  Claim C4. A regular workday is a day that is no Saturday or Sunday (weekday below 5),
  whose date is not in the holidays and for which the notes hold no text (no entry, or an
  empty one: the test of the code is the truth value of \<open>notas_por_dia.get(d)\<close>). In its
  row, column 1 holds the morning entry time and column 3 the morning exit time;
  columns 5 and 7 hold the afternoon entry and exit times when the weekday is one of
  \<open>extras_dow\<close> and \<open>---\<close> when it is not; the signature columns 2, 4, 6 and 8 are
  empty in both cases.
\<close>

theorem regular_workday_row:
  assumes "1 \<le> mes" "mes \<le> 12" "1 \<le> anio" "anio \<le> 9999"
    and "2 \<le> length hora_maniana" "2 \<le> length hora_tarde"
    and "monthrange anio mes = Inr (day1, ndays)"
    and "1 \<le> d" "d \<le> ndays"
    and "calendar_weekday anio mes (int d) = Inr dow"
    and "dow < 5"
    and "Date anio mes (int d) \<notin> feriados_set feriados"
    and "\<not> truthy (notas_or_empty notas_por_dia (int d))"
  shows "\<exists>t. build_table mes anio hora_maniana hora_tarde extras_dow notas_por_dia feriados doc =
             (None, doc @ [Table t, Paragraph [CHR 0x5C]]) \<and>
           cell_text (t ! (1 + d) ! 1) = hora_maniana ! 0 \<and>
           cell_text (t ! (1 + d) ! 3) = hora_maniana ! 1 \<and>
           cell_text (t ! (1 + d) ! 5) =
             (if int dow \<in> set extras_dow then hora_tarde ! 0 else ''---'') \<and>
           cell_text (t ! (1 + d) ! 7) =
             (if int dow \<in> set extras_dow then hora_tarde ! 1 else ''---'') \<and>
           cell_text (t ! (1 + d) ! 2) = [] \<and> cell_text (t ! (1 + d) ! 4) = [] \<and>
           cell_text (t ! (1 + d) ! 6) = [] \<and> cell_text (t ! (1 + d) ! 8) = []"
proof -
  from build_table_row [OF assms(1-10), of extras_dow notas_por_dia feriados doc]
  obtain t where t: "build_table mes anio hora_maniana hora_tarde extras_dow notas_por_dia feriados doc =
             (None, doc @ [Table t, Paragraph [CHR 0x5C]])"
    and post: "day_row_post mes anio hora_maniana hora_tarde extras_dow
        (notas_or_empty notas_por_dia) (feriados_set feriados) d dow (t ! (1 + d))"
    by (elim exE conjE)
  from post assms(11-13) t show ?thesis
    by (intro exI [of _ t]) (simp add: day_row_post_def)
qed

text \<open>September 2025, afternoons on Tuesdays and Thursdays: Monday the 1st has dashes
  in the afternoon columns, Tuesday the 2nd the afternoon times.\<close>

theorem regular_workday_row_witness:
  "\<exists>t. build_table 9 2025 [''6:30'', ''13:00''] [''16:00'', ''19:00''] [1, 3]
          (Some [16 \<mapsto> ''LICENCIA'']) (Some [Date 2025 9 15]) [] =
          (None, [Table t, Paragraph [CHR 0x5C]]) \<and>
        map (\<lambda>c. cell_text (t ! 2 ! c)) [1, 2, 3, 4, 5, 6, 7, 8] =
          [''6:30'', [], ''13:00'', [], ''---'', [], ''---'', []] \<and>
        map (\<lambda>c. cell_text (t ! 3 ! c)) [1, 2, 3, 4, 5, 6, 7, 8] =
          [''6:30'', [], ''13:00'', [], ''16:00'', [], ''19:00'', []]"
proof -
  have nt: "\<not> truthy (notas_or_empty (Some [16 \<mapsto> ''LICENCIA'']) 1)"
    "\<not> truthy (notas_or_empty (Some [16 \<mapsto> ''LICENCIA'']) 2)"
    by (simp_all add: truthy_def notas_or_empty_def)
  have nh: "Date 2025 9 1 \<notin> feriados_set (Some [Date 2025 9 15])"
    "Date 2025 9 2 \<notin> feriados_set (Some [Date 2025 9 15])"
    by (simp_all add: feriados_set_def)
  from regular_workday_row [of 9 2025 "[''6:30'', ''13:00'']" "[''16:00'', ''19:00'']" 0 30 1 0
      "Some [Date 2025 9 15]" "Some [16 \<mapsto> ''LICENCIA'']" "[1, 3]" "[]"]
    regular_workday_row [of 9 2025 "[''6:30'', ''13:00'']" "[''16:00'', ''19:00'']" 0 30 2 1
      "Some [Date 2025 9 15]" "Some [16 \<mapsto> ''LICENCIA'']" "[1, 3]" "[]"]
  show ?thesis
    using nt nh by (auto simp: monthrange_2025_9 weekdays_2025_9 numeral_2_eq_2 numeral_3_eq_3)
qed

subsection \<open>Saturdays and Sundays\<close>

text \<open>
  Claim C2, as the code has it. The row of a day whose weekday is 5 or more is a weekend
  row whatever the holidays and the notes are (both are arbitrary here): column 1, the
  first time column, holds the label, which is \<open>SABADO\<close> (written with an accented A)
  for weekday 5 and \<open>DOMINGO\<close> for weekday 6; the other time columns 3, 5 and 7 hold
  \<open>---\<close>; the signature columns 2, 4, 6 and 8 are empty.
\<close>

theorem weekend_row:
  assumes "1 \<le> mes" "mes \<le> 12" "1 \<le> anio" "anio \<le> 9999"
    and "2 \<le> length hora_maniana" "2 \<le> length hora_tarde"
    and "monthrange anio mes = Inr (day1, ndays)"
    and "1 \<le> d" "d \<le> ndays"
    and "calendar_weekday anio mes (int d) = Inr dow"
    and "5 \<le> dow"
  shows "\<exists>t. build_table mes anio hora_maniana hora_tarde extras_dow notas_por_dia feriados doc =
             (None, doc @ [Table t, Paragraph [CHR 0x5C]]) \<and>
           dow \<le> 6 \<and>
           cell_text (t ! (1 + d) ! 1) = (if dow = 5 then SABADO else ''DOMINGO'') \<and>
           cell_text (t ! (1 + d) ! 3) = ''---'' \<and> cell_text (t ! (1 + d) ! 5) = ''---'' \<and>
           cell_text (t ! (1 + d) ! 7) = ''---'' \<and>
           cell_text (t ! (1 + d) ! 2) = [] \<and> cell_text (t ! (1 + d) ! 4) = [] \<and>
           cell_text (t ! (1 + d) ! 6) = [] \<and> cell_text (t ! (1 + d) ! 8) = []"
proof -
  from build_table_row [OF assms(1-10), of extras_dow notas_por_dia feriados doc]
  obtain t where t: "build_table mes anio hora_maniana hora_tarde extras_dow notas_por_dia feriados doc =
             (None, doc @ [Table t, Paragraph [CHR 0x5C]])"
    and dow: "dow < 7"
    and post: "day_row_post mes anio hora_maniana hora_tarde extras_dow
        (notas_or_empty notas_por_dia) (feriados_set feriados) d dow (t ! (1 + d))"
    by (elim exE conjE)
  from post assms(11) dow t show ?thesis
    by (intro exI [of _ t]) (simp add: day_row_post_def)
qed

text \<open>Saturday 20 September 2025, listed as a holiday and given a note: a weekend row.\<close>

theorem weekend_row_witness:
  "Date 2025 9 20 \<in> feriados_set (Some [Date 2025 9 20]) \<and>
   notas_or_empty (Some [20 \<mapsto> ''TRAINING'']) 20 = Some ''TRAINING'' \<and>
   (\<exists>t. build_table 9 2025 [''6:30'', ''13:00''] [''16:00'', ''19:00''] [1, 3]
          (Some [20 \<mapsto> ''TRAINING'']) (Some [Date 2025 9 20]) [] =
          (None, [Table t, Paragraph [CHR 0x5C]]) \<and>
        map (\<lambda>c. cell_text (t ! 21 ! c)) [1, 2, 3, 4, 5, 6, 7, 8] =
          [SABADO, [], ''---'', [], ''---'', [], ''---'', []])"
proof -
  from weekend_row [of 9 2025 "[''6:30'', ''13:00'']" "[''16:00'', ''19:00'']" 0 30 20 5
      "[1, 3]" "Some [20 \<mapsto> ''TRAINING'']" "Some [Date 2025 9 20]" "[]"]
  show ?thesis
    by (auto simp: monthrange_2025_9 weekdays_2025_9 feriados_set_def notas_or_empty_def)
qed

text \<open>
  Claim C2 as the specification words it gives the labels in English. The row the code
  writes for Saturday 6 September 2025 has nine cells; its label is \<open>SABADO\<close> with an
  accented A, not \<open>SATURDAY\<close>.
\<close>

theorem weekend_label_counterexample:
  "calendar_weekday 2025 9 6 = Inr 5 \<and>
   (\<exists>t. build_table 9 2025 [''6:30'', ''13:00''] [''16:00'', ''19:00''] [1, 3] None None [] =
          (None, [Table t, Paragraph [CHR 0x5C]]) \<and>
        length (t ! 7) = 9 \<and>
        map (\<lambda>c. cell_text (t ! 7 ! c)) [0, 1, 2, 3, 4, 5, 6, 7, 8] =
          [''6'', SABADO, [], ''---'', [], ''---'', [], ''---'', []] \<and>
        cell_text (t ! 7 ! 1) \<noteq> ''SATURDAY'')"
proof -
  have s: "str_int 6 = ''6''" by code_simp
  from build_table_row [of 9 2025 "[''6:30'', ''13:00'']" "[''16:00'', ''19:00'']" 0 30 6 5
      "[1, 3]" None None "[]"]
  show ?thesis
    by (auto simp: monthrange_2025_9 weekdays_2025_9 day_row_post_def s) (simp add: SABADO_def)
qed

subsection \<open>Holidays and notes\<close>

text \<open>
  The row of a day from Monday to Friday that is a holiday or has a note: the loop body
  writes the label into column 1 (lines 168 and 176) and then calls \<open>fill_dashes\<close>,
  whose range starts at column 1 and not, as the loop of the weekend branch does, at
  column 2. The label is overwritten: all four time columns hold \<open>---\<close>.
\<close>

lemma holiday_or_note_row:
  assumes "1 \<le> mes" "mes \<le> 12" "1 \<le> anio" "anio \<le> 9999"
    and "2 \<le> length hora_maniana" "2 \<le> length hora_tarde"
    and "monthrange anio mes = Inr (day1, ndays)"
    and "1 \<le> d" "d \<le> ndays"
    and "calendar_weekday anio mes (int d) = Inr dow"
    and "dow < 5"
    and "Date anio mes (int d) \<in> feriados_set feriados \<or>
         truthy (notas_or_empty notas_por_dia (int d))"
  shows "\<exists>t. build_table mes anio hora_maniana hora_tarde extras_dow notas_por_dia feriados doc =
             (None, doc @ [Table t, Paragraph [CHR 0x5C]]) \<and>
           cell_text (t ! (1 + d) ! 1) = ''---'' \<and>
           cell_text (t ! (1 + d) ! 3) = ''---'' \<and> cell_text (t ! (1 + d) ! 5) = ''---'' \<and>
           cell_text (t ! (1 + d) ! 7) = ''---'' \<and>
           cell_text (t ! (1 + d) ! 2) = [] \<and> cell_text (t ! (1 + d) ! 4) = [] \<and>
           cell_text (t ! (1 + d) ! 6) = [] \<and> cell_text (t ! (1 + d) ! 8) = []"
proof -
  from build_table_row [OF assms(1-10), of extras_dow notas_por_dia feriados doc]
  obtain t where t: "build_table mes anio hora_maniana hora_tarde extras_dow notas_por_dia feriados doc =
             (None, doc @ [Table t, Paragraph [CHR 0x5C]])"
    and post: "day_row_post mes anio hora_maniana hora_tarde extras_dow
        (notas_or_empty notas_por_dia) (feriados_set feriados) d dow (t ! (1 + d))"
    by (elim exE conjE)
  from post assms(11,12) t show ?thesis
    by (intro exI [of _ t]) (simp add: day_row_post_def)
qed

text \<open>
  Claim C3 (the label of a holiday row is the holiday label) does not hold of the code.
  Monday 15 September 2025, a holiday: the nine cells of the row hold the day number,
  dashes in columns 1, 3, 5 and 7 and nothing else; \<open>FERIADO\<close> is not in it.
\<close>

theorem holiday_label_overwritten:
  "calendar_weekday 2025 9 15 = Inr 0 \<and>
   Date 2025 9 15 \<in> feriados_set (Some [Date 2025 9 15]) \<and>
   (\<exists>t. build_table 9 2025 [''6:30'', ''13:00''] [''16:00'', ''19:00''] [1, 3] None
          (Some [Date 2025 9 15]) [] =
          (None, [Table t, Paragraph [CHR 0x5C]]) \<and>
        length (t ! 16) = 9 \<and>
        map (\<lambda>c. cell_text (t ! 16 ! c)) [0, 1, 2, 3, 4, 5, 6, 7, 8] =
          [''15'', ''---'', [], ''---'', [], ''---'', [], ''---'', []])"
proof -
  have s: "str_int 15 = ''15''" by code_simp
  from holiday_or_note_row [of 9 2025 "[''6:30'', ''13:00'']" "[''16:00'', ''19:00'']" 0 30 15 0
      "Some [Date 2025 9 15]" None "[1, 3]" "[]"]
    build_table_row [of 9 2025 "[''6:30'', ''13:00'']" "[''16:00'', ''19:00'']" 0 30 15 0
      "[1, 3]" None "Some [Date 2025 9 15]" "[]"]
  show ?thesis
    by (auto simp: monthrange_2025_9 weekdays_2025_9 feriados_set_def day_row_post_def s)
qed

text \<open>
  Claim C5 (the label of a row with a note is the text of the note) does not hold of the
  code. Tuesday 16 September 2025 with the note \<open>LICENCIA\<close>: the nine cells of the row
  hold the day number, dashes in columns 1, 3, 5 and 7 and nothing else.
\<close>

theorem note_label_overwritten:
  "calendar_weekday 2025 9 16 = Inr 1 \<and>
   notas_or_empty (Some [16 \<mapsto> ''LICENCIA'']) 16 = Some ''LICENCIA'' \<and>
   (\<exists>t. build_table 9 2025 [''6:30'', ''13:00''] [''16:00'', ''19:00''] [1, 3]
          (Some [16 \<mapsto> ''LICENCIA'']) None [] =
          (None, [Table t, Paragraph [CHR 0x5C]]) \<and>
        length (t ! 17) = 9 \<and>
        map (\<lambda>c. cell_text (t ! 17 ! c)) [0, 1, 2, 3, 4, 5, 6, 7, 8] =
          [''16'', ''---'', [], ''---'', [], ''---'', [], ''---'', []])"
proof -
  have s: "str_int 16 = ''16''" by code_simp
  from holiday_or_note_row [of 9 2025 "[''6:30'', ''13:00'']" "[''16:00'', ''19:00'']" 0 30 16 1
      None "Some [16 \<mapsto> ''LICENCIA'']" "[1, 3]" "[]"]
    build_table_row [of 9 2025 "[''6:30'', ''13:00'']" "[''16:00'', ''19:00'']" 0 30 16 1
      "[1, 3]" "Some [16 \<mapsto> ''LICENCIA'']" None "[]"]
  show ?thesis
    by (auto simp: monthrange_2025_9 weekdays_2025_9 notas_or_empty_def truthy_def
        day_row_post_def s)
qed

subsection \<open>Invalid months and years\<close>









subsection \<open>The list of holidays\<close>

lemma fold_insert_tokens:
  "fold (\<lambda>tok out. case f tok of Inl e \<Rightarrow> out | Inr dt \<Rightarrow> insert dt out) toks acc =
     acc \<union> {dt. \<exists>tok\<in>set toks. f tok = Inr dt}"
proof (induction toks arbitrary: acc)
  case Nil
  then show ?case by simp
next
  case (Cons tok toks)
  show ?case
  proof (cases "f tok")
    case (Inl e)
    with Cons.IH [of acc] show ?thesis by auto
  next
    case (Inr dt)
    with Cons.IH [of "insert dt acc"] show ?thesis by auto
  qed
qed

lemma unpack3_Inr: "unpack3 xs = Inr (y, m, d) \<longleftrightarrow> xs = [Inr y, Inr m, Inr d]"
proof
  assume "xs = [Inr y, Inr m, Inr d]"
  then show "unpack3 xs = Inr (y, m, d)" by (simp add: unpack3_def)
next
  assume "unpack3 xs = Inr (y, m, d)"
  then show "xs = [Inr y, Inr m, Inr d]"
    by (auto simp: unpack3_def split: option.splits list.splits sum.splits)
qed

lemma map_eq_3:
  "map f xs = [u, v, w] \<longleftrightarrow> (\<exists>a b c. xs = [a, b, c] \<and> f a = u \<and> f b = v \<and> f c = w)"
  by (auto simp: map_eq_Cons_conv)

lemma date_new_Inr:
  "date_new y m d = Inr dt \<longleftrightarrow>
     1 \<le> y \<and> y \<le> 9999 \<and> 1 \<le> m \<and> m \<le> 12 \<and> 1 \<le> d \<and> d \<le> days_in_month y m \<and>
     dt = Date y m d"
proof (cases "1 \<le> m \<and> m \<le> 12")
  case True
  with days_in_month_bounds [of m y] show ?thesis
    by (auto simp: date_new_def c_int_def)
next
  case False
  then show ?thesis by (auto simp: date_new_def)
qed

lemma date_of_token_Inr:
  "date_of_token tok = Inr dt \<longleftrightarrow>
     (\<exists>a b c y m d. str_split CHR ''-'' tok = [a, b, c] \<and>
        py_int a = Inr y \<and> py_int b = Inr m \<and> py_int c = Inr d \<and>
        1 \<le> y \<and> y \<le> 9999 \<and> 1 \<le> m \<and> m \<le> 12 \<and> 1 \<le> d \<and> d \<le> days_in_month y m \<and>
        dt = Date y m d)"
proof -
  have "date_of_token tok = Inr dt \<longleftrightarrow>
      (\<exists>y m d. unpack3 (map py_int (str_split CHR ''-'' tok)) = Inr (y, m, d) \<and>
         date_new y m d = Inr dt)"
    by (auto simp: date_of_token_def split: sum.splits)
  then show ?thesis
    unfolding unpack3_Inr map_eq_3 date_new_Inr by blast
qed

lemma parse_date_list_example:
  "parse_date_list (Some ''2025-07-09,bad,2025-07-19'') = {Date 2025 7 9, Date 2025 7 19}"
  by code_simp

lemma parse_date_list_malformed:
  "parse_date_list (Some ''2025-13-01,2025-02-30,2025-07,x-y-z,1-2-3-4, 2024-02-29 '') =
     {Date 2024 2 29}"
  by code_simp

text \<open>
  Claim C7. \<open>parse_date_list\<close> returns a set and raises nothing: every exception of the
  body is caught, and the model drops the token. Missing (\<open>None\<close>) or empty input gives
  the empty set. Otherwise a date is in the result exactly when one of the tokens between
  commas, stripped, splits at \<open>-\<close> into exactly three segments that \<open>int()\<close> accepts
  and that are the year, month and day of a date of the calendar, which is that date:
  a token with another number of segments, with a segment that is no integer or with
  fields that are no date adds nothing. The example of the specification gives its two
  dates.
\<close>

theorem parse_date_list_spec:
  "parse_date_list None = {} \<and> parse_date_list (Some []) = {} \<and>
   (dt \<in> parse_date_list (Some s) \<longleftrightarrow>
      (\<exists>tok\<in>set (str_split CHR '','' s). \<exists>a b c y m d.
         str_split CHR ''-'' (strip tok) = [a, b, c] \<and>
         py_int a = Inr y \<and> py_int b = Inr m \<and> py_int c = Inr d \<and>
         1 \<le> y \<and> y \<le> 9999 \<and> 1 \<le> m \<and> m \<le> 12 \<and> 1 \<le> d \<and> d \<le> days_in_month y m \<and>
         dt = Date y m d)) \<and>
   parse_date_list (Some ''2025-07-09,bad,2025-07-19'') = {Date 2025 7 9, Date 2025 7 19}"
proof -
  have empty: "date_of_token (strip []) \<noteq> Inr dt"
    by (simp add: date_of_token_Inr strip_def)
  have "dt \<in> parse_date_list (Some s) \<longleftrightarrow>
      (\<exists>tok\<in>set (str_split CHR '','' s). date_of_token (strip tok) = Inr dt)"
  proof (cases "s = []")
    case True
    with empty show ?thesis by (simp add: parse_date_list_def)
  next
    case False
    then show ?thesis
      by (simp add: parse_date_list_def fold_insert_tokens [of "\<lambda>tok. date_of_token (strip tok)"])
  qed
  then show ?thesis
    by (simp add: date_of_token_Inr parse_date_list_example) (simp add: parse_date_list_def)
qed

text \<open>Tokens of each malformed kind are dropped; the well-formed one is kept.\<close>

theorem parse_date_list_spec_witness:
  "parse_date_list (Some ''2025-13-01,2025-02-30,2025-07,x-y-z,1-2-3-4, 2024-02-29 '') =
     {Date 2024 2 29} \<and>
   parse_date_list None = {} \<and> parse_date_list (Some []) = {} \<and>
   parse_date_list (Some ''2025-07-09,bad,2025-07-19'') = {Date 2025 7 9, Date 2025 7 19}"
  using parse_date_list_spec [of "Date 2024 2 29" "''2024-02-29''"] parse_date_list_malformed
  by simp

subsection \<open>The notes\<close>

lemma fold_note_entries:
  "fold (\<lambda>tok out. case note_entry tok of None \<Rightarrow> out | Some (n, v) \<Rightarrow> out(n \<mapsto> v)) toks m =
     m ++ map_of (rev (List.map_filter note_entry toks))"
proof (induction toks arbitrary: m)
  case Nil
  then show ?case by (simp add: List.map_filter_simps)
next
  case (Cons tok toks)
  show ?case
  proof (cases "note_entry tok")
    case None
    with Cons.IH [of m] show ?thesis by (simp add: List.map_filter_simps)
  next
    case (Some e)
    obtain n v where e: "e = (n, v)" by (cases e)
    let ?F = "\<lambda>tok out. case note_entry tok of None \<Rightarrow> out | Some (n, v) \<Rightarrow> out(n \<mapsto> v)"
    let ?X = "map_of (rev (List.map_filter note_entry toks))"
    have "fold ?F (tok # toks) m = fold ?F toks (m(n \<mapsto> v))"
      using Some e by simp
    also have "\<dots> = m(n \<mapsto> v) ++ ?X" by (rule Cons.IH)
    also have "m(n \<mapsto> v) = m ++ [n \<mapsto> v]" by simp
    also have "(m ++ [n \<mapsto> v]) ++ ?X = m ++ ([n \<mapsto> v] ++ ?X)" by (simp only: map_add_assoc)
    also have "[n \<mapsto> v] ++ ?X = map_of (rev (List.map_filter note_entry (tok # toks)))"
      using Some e by (simp add: List.map_filter_simps)
    finally show ?thesis .
  qed
qed

lemma takeWhile_sep:
  "sep \<notin> set k \<Longrightarrow> takeWhile (\<lambda>c. c \<noteq> sep) (k @ sep # rest) = k"
  by (induction k) auto

lemma dropWhile_sep:
  "sep \<notin> set k \<Longrightarrow> dropWhile (\<lambda>c. c \<noteq> sep) (k @ sep # rest) = sep # rest"
  by (induction k) auto

lemma parse_notes_body:
  "(\<lambda>tok out.
      let tok = strip tok in
      if CHR '':'' \<in> set tok then
        (case str_split1 CHR '':'' tok of
           (k, v) \<Rightarrow> (case py_int k of Inl e \<Rightarrow> out | Inr n \<Rightarrow> out(n \<mapsto> strip v)))
      else out) =
   (\<lambda>tok out. case note_entry tok of None \<Rightarrow> out | Some (n, v) \<Rightarrow> out(n \<mapsto> v))"
proof (rule ext, rule ext)
  fix tok :: string and out :: "int \<rightharpoonup> string"
  show "(let tok = strip tok in
      if CHR '':'' \<in> set tok then
        (case str_split1 CHR '':'' tok of
           (k, v) \<Rightarrow> (case py_int k of Inl e \<Rightarrow> out | Inr n \<Rightarrow> out(n \<mapsto> strip v)))
      else out) =
     (case note_entry tok of None \<Rightarrow> out | Some (n, v) \<Rightarrow> out(n \<mapsto> v))"
    by (simp add: note_entry_def str_split1_def Let_def split: sum.splits)
qed

lemma note_entry_Some:
  "note_entry tok = Some (n, v) \<longleftrightarrow>
     (\<exists>k rest. strip tok = k @ CHR '':'' # rest \<and> CHR '':'' \<notin> set k \<and>
        py_int k = Inr n \<and> v = strip rest)"
proof
  assume "note_entry tok = Some (n, v)"
  then have c: "CHR '':'' \<in> set (strip tok)"
    and k: "py_int (takeWhile (\<lambda>c. c \<noteq> CHR '':'') (strip tok)) = Inr n"
    and v: "v = strip (tl (dropWhile (\<lambda>c. c \<noteq> CHR '':'') (strip tok)))"
    by (auto simp: note_entry_def Let_def split: if_splits sum.splits)
  let ?k = "takeWhile (\<lambda>c. c \<noteq> CHR '':'') (strip tok)"
  let ?r = "dropWhile (\<lambda>c. c \<noteq> CHR '':'') (strip tok)"
  from c have "?r \<noteq> []" by (simp add: dropWhile_eq_Nil_conv)
  moreover from this have "hd ?r = CHR '':''" using hd_dropWhile [of "\<lambda>c. c \<noteq> CHR '':''" "strip tok"] by simp
  ultimately have "?r = CHR '':'' # tl ?r" by (cases ?r) simp_all
  then have "strip tok = ?k @ CHR '':'' # tl ?r"
    using takeWhile_dropWhile_id [of "\<lambda>c. c \<noteq> CHR '':''" "strip tok"] by simp
  moreover have "CHR '':'' \<notin> set ?k" by (auto dest: set_takeWhileD)
  ultimately show "\<exists>k rest. strip tok = k @ CHR '':'' # rest \<and> CHR '':'' \<notin> set k \<and>
        py_int k = Inr n \<and> v = strip rest"
    using k v by blast
next
  assume "\<exists>k rest. strip tok = k @ CHR '':'' # rest \<and> CHR '':'' \<notin> set k \<and>
        py_int k = Inr n \<and> v = strip rest"
  then obtain k rest where s: "strip tok = k @ CHR '':'' # rest" "CHR '':'' \<notin> set k"
    "py_int k = Inr n" "v = strip rest" by blast
  from s(2) have "takeWhile (\<lambda>c. c \<noteq> CHR '':'') (k @ CHR '':'' # rest) = k"
    "dropWhile (\<lambda>c. c \<noteq> CHR '':'') (k @ CHR '':'' # rest) = CHR '':'' # rest"
    by (simp_all add: takeWhile_sep dropWhile_sep)
  with s show "note_entry tok = Some (n, v)"
    by (simp add: note_entry_def Let_def)
qed

text \<open>
  Claim C8. Missing or empty input gives the empty mapping. Otherwise the result is the
  mapping of the entries of the tokens between commas, a later entry for a day replacing
  an earlier one: the loop of the code computes \<open>map_of\<close> of the entries in reverse
  order. A token has the entry \<open>(n, v)\<close> exactly when, trimmed, it is \<open>k:rest\<close> with no
  colon in \<open>k\<close> (the split is at the first colon only), \<open>int(k)\<close> is \<open>n\<close> and \<open>v\<close> is
  \<open>rest\<close> trimmed; every other token is skipped. The example of the specification gives
  its two entries.
\<close>

theorem parse_notes_spec:
  "parse_notes None = Map.empty \<and> parse_notes (Some []) = Map.empty \<and>
   parse_notes (Some s) = map_of (rev (List.map_filter note_entry (str_split CHR '','' s))) \<and>
   (note_entry tok = Some (n, v) \<longleftrightarrow>
      (\<exists>k rest. strip tok = k @ CHR '':'' # rest \<and> CHR '':'' \<notin> set k \<and>
         py_int k = Inr n \<and> v = strip rest)) \<and>
   parse_notes (Some ''16:LICENCIA,notanumber:X,17:CAPACITACION'') =
     [16 \<mapsto> ''LICENCIA'', 17 \<mapsto> ''CAPACITACION'']"
proof -
  have ne: "note_entry [] = None" by (simp add: note_entry_def strip_def)
  have gen: "parse_notes (Some s) = map_of (rev (List.map_filter note_entry (str_split CHR '','' s)))"
    for s
  proof (cases "s = []")
    case True
    then show ?thesis by (simp add: parse_notes_def List.map_filter_simps ne)
  next
    case False
    then show ?thesis
      unfolding parse_notes_def parse_notes_body by (simp add: fold_note_entries)
  qed
  have ex: "parse_notes (Some ''16:LICENCIA,notanumber:X,17:CAPACITACION'') =
     [16 \<mapsto> ''LICENCIA'', 17 \<mapsto> ''CAPACITACION'']"
  proof -
    have "List.map_filter note_entry (str_split CHR '','' ''16:LICENCIA,notanumber:X,17:CAPACITACION'')
        = [(16, ''LICENCIA''), (17, ''CAPACITACION'')]"
      by code_simp
    then show ?thesis unfolding gen by (intro ext) simp
  qed
  show ?thesis
    using gen [of s] ex note_entry_Some [of tok n v] by (simp add: parse_notes_def)
qed

text \<open>A text with a colon of its own, a token without a colon, a day that is no
  number, and two entries for one day.\<close>

theorem parse_notes_spec_witness:
  "parse_notes (Some ''16:LICENCIA,notanumber:X,17:CAPACITACION'') =
     [16 \<mapsto> ''LICENCIA'', 17 \<mapsto> ''CAPACITACION''] \<and>
   note_entry '' 7 : a:b '' = Some (7, ''a:b'') \<and> note_entry ''LICENCIA'' = None \<and>
   note_entry ''x:LICENCIA'' = None \<and>
   parse_notes (Some ''5:A, 5:B'') = map_of [(5, ''B''), (5, ''A'')]"
proof -
  have "note_entry '' 7 : a:b '' = Some (7, ''a:b'')" "note_entry ''LICENCIA'' = None"
    "note_entry ''x:LICENCIA'' = None"
    "List.map_filter note_entry (str_split CHR '','' ''5:A, 5:B'') = [(5, ''A''), (5, ''B'')]"
    by code_simp+
  with parse_notes_spec [of "''5:A, 5:B''" "'' 7 : a:b ''" 7 "''a:b''"] show ?thesis
    by simp
qed

subsection \<open>The time validator\<close>

lemma str_split_ne: "str_split sep s \<noteq> []"
  by (induction s) (auto split: list.splits)

lemma str_split_Cons_sep: "str_split sep (sep # cs) = [] # str_split sep cs"
  by simp

lemma str_split_Cons_other:
  "c \<noteq> sep \<Longrightarrow> str_split sep cs = p # ps \<Longrightarrow> str_split sep (c # cs) = (c # p) # ps"
  by simp

lemma str_split_single: "str_split sep s = [b] \<longleftrightarrow> (b = s \<and> sep \<notin> set s)"
proof (induction s arbitrary: b)
  case Nil
  then show ?case by auto
next
  case (Cons c cs)
  show ?case
  proof (cases "c = sep")
    case True
    then show ?thesis using str_split_ne [of sep cs] by (simp only: str_split_Cons_sep) auto
  next
    case False
    obtain p ps where sp: "str_split sep cs = p # ps"
      using str_split_ne [of sep cs] by (cases "str_split sep cs") auto
    have "str_split sep (c # cs) = [b] \<longleftrightarrow> (b = c # p \<and> ps = [])"
      unfolding str_split_Cons_other [OF False sp] by auto
    also have "\<dots> \<longleftrightarrow> (\<exists>q. b = c # q \<and> str_split sep cs = [q])"
      using sp by auto
    also have "\<dots> \<longleftrightarrow> (\<exists>q. b = c # q \<and> q = cs \<and> sep \<notin> set cs)"
      by (simp only: Cons.IH)
    also have "\<dots> \<longleftrightarrow> (b = c # cs \<and> sep \<notin> set (c # cs))"
      using False by auto
    finally show ?thesis .
  qed
qed

lemma str_split_two:
  "str_split sep s = [a, b] \<longleftrightarrow> (s = a @ sep # b \<and> sep \<notin> set a \<and> sep \<notin> set b)"
proof (induction s arbitrary: a)
  case Nil
  then show ?case by simp
next
  case (Cons c cs)
  show ?case
  proof (cases "c = sep")
    case True
    have "str_split sep (c # cs) = [a, b] \<longleftrightarrow> (a = [] \<and> str_split sep cs = [b])"
      unfolding True str_split_Cons_sep by auto
    also have "\<dots> \<longleftrightarrow> (a = [] \<and> b = cs \<and> sep \<notin> set cs)"
      by (simp only: str_split_single)
    also have "\<dots> \<longleftrightarrow> (c # cs = a @ sep # b \<and> sep \<notin> set a \<and> sep \<notin> set b)"
      using True by (cases a) auto
    finally show ?thesis .
  next
    case False
    obtain p ps where sp: "str_split sep cs = p # ps"
      using str_split_ne [of sep cs] by (cases "str_split sep cs") auto
    have "str_split sep (c # cs) = [a, b] \<longleftrightarrow> (a = c # p \<and> ps = [b])"
      unfolding str_split_Cons_other [OF False sp] by auto
    also have "\<dots> \<longleftrightarrow> (\<exists>q. a = c # q \<and> str_split sep cs = [q, b])"
      using sp by auto
    also have "\<dots> \<longleftrightarrow> (\<exists>q. a = c # q \<and> cs = q @ sep # b \<and> sep \<notin> set q \<and> sep \<notin> set b)"
      by (simp only: Cons.IH)
    also have "\<dots> \<longleftrightarrow> (c # cs = a @ sep # b \<and> sep \<notin> set a \<and> sep \<notin> set b)"
      using False by (cases a) auto
    finally show ?thesis .
  qed
qed

lemma length_2_iff: "length xs = 2 \<longleftrightarrow> (\<exists>a b. xs = [a, b])"
  by (cases xs; cases "tl xs") auto

lemma char_isdigit_plain:
  assumes "char_isdigit c"
  shows "\<not> int_space c" "c \<noteq> CHR ''-''" "c \<noteq> CHR ''+''" "c \<noteq> CHR ''_''"
  using assms by (auto simp: char_isdigit_def is_decimal_def int_space_def)

lemma is_decimal_not_colon: "is_decimal c \<Longrightarrow> c \<noteq> CHR '':''"
  by (auto simp: is_decimal_def)

lemma int_digits_isdigit:
  "list_all char_isdigit s \<Longrightarrow>
   int_digits acc s =
     (if list_all is_decimal s then Some (foldl (\<lambda>a c. 10 * a + digit_value c) acc s) else None)"
proof (induction acc s rule: int_digits.induct)
  case (1 acc)
  then show ?case by simp
next
  case (2 acc c)
  then show ?case by simp
next
  case (3 acc c d cs)
  show ?case
  proof (cases "is_decimal c")
    case True
    with 3 show ?thesis by simp
  next
    case False
    moreover from 3(3) have "c \<noteq> CHR ''_''" by (simp add: char_isdigit_plain)
    ultimately show ?thesis by simp
  qed
qed

lemma dropWhile_rev_last:
  "s \<noteq> [] \<Longrightarrow> \<not> P (last s) \<Longrightarrow> dropWhile P (rev s) = rev s"
  by (induction s rule: rev_induct) auto

lemma numeric_isdigit: "numeric s \<longleftrightarrow> isdigit s \<and> list_all is_decimal s"
  by (auto simp: numeric_def isdigit_def char_isdigit_def list_all_iff)

lemma too_many_numeric:
  "list_all is_decimal s \<Longrightarrow> too_many_digits s \<longleftrightarrow> int_max_str_digits < length s"
proof -
  assume "list_all is_decimal s"
  then have "takeWhile is_decimal s = s" by (simp add: list_all_iff)
  then show ?thesis by (simp only: too_many_digits_def)
qed

lemma isdigit_no_colon: "isdigit s \<Longrightarrow> CHR '':'' \<notin> set s"
  by (auto simp: isdigit_def list_all_iff char_isdigit_def is_decimal_def)

lemma py_int_isdigit:
  assumes "isdigit s"
  shows "py_int s =
           (if too_many_digits s then Inl DigitLimitError
            else if list_all is_decimal s then Inr (int (decimal_value s))
            else Inl (InvalidLiteral s))"
proof -
  from assms obtain d ds where s: "s = d # ds" and all: "list_all char_isdigit (d # ds)"
    by (cases s) (auto simp: isdigit_def)
  then have d: "char_isdigit d" and ds: "list_all char_isdigit ds" by simp_all
  have "char_isdigit (last s)" using all s by (auto simp: list_all_iff)
  then have "dropWhile int_space (rev s) = rev s"
    using s by (intro dropWhile_rev_last) (simp_all add: char_isdigit_plain)
  moreover have "dropWhile int_space s = s" using s d by (simp add: char_isdigit_plain)
  ultimately have t: "rev (dropWhile int_space (rev (dropWhile int_space s))) = s"
    by simp
  have sg: "(s \<noteq> [] \<and> (hd s = CHR ''-'' \<or> hd s = CHR ''+'')) = False"
    "(s \<noteq> [] \<and> hd s = CHR ''-'') = False"
    using s d by (simp_all add: char_isdigit_plain)
  have same: "digit_or_underscore c = is_decimal c" if "c \<in> set s" for c
  proof -
    from that all s have "char_isdigit c" by (auto simp: list_all_iff)
    then have "c \<noteq> CHR ''_''" by (rule char_isdigit_plain)
    then show ?thesis by (simp add: digit_or_underscore_def)
  qed
  have run: "takeWhile digit_or_underscore s = takeWhile is_decimal s"
    by (rule takeWhile_cong) (simp_all add: same)
  have rest: "dropWhile digit_or_underscore s = dropWhile is_decimal s"
    by (rule dropWhile_cong) (simp_all add: same)
  have unfold: "py_int s =
      (case takeWhile is_decimal s of
         [] \<Rightarrow> Inl (InvalidLiteral s)
       | d # ds \<Rightarrow>
           if is_decimal d then
             (case int_digits (digit_value d) ds of
                None \<Rightarrow> Inl (InvalidLiteral s)
              | Some n \<Rightarrow>
                  if int_max_str_digits < length (filter is_decimal (takeWhile is_decimal s))
                  then Inl DigitLimitError
                  else if dropWhile is_decimal s \<noteq> [] then Inl (InvalidLiteral s)
                  else Inr (int n))
           else Inl (InvalidLiteral s))"
    unfolding py_int_def t Let_def sg if_False run rest by (rule refl)
  show ?thesis
  proof (cases "is_decimal d")
    case False
    then have "takeWhile is_decimal s = []" "\<not> list_all is_decimal s" using s by simp_all
    then show ?thesis by (simp add: unfold too_many_digits_def)
  next
    case True
    let ?r = "takeWhile is_decimal ds"
    have r: "takeWhile is_decimal s = d # ?r" using s True by simp
    have dec: "list_all is_decimal ?r" by (auto simp: list_all_iff dest: set_takeWhileD)
    then have "list_all char_isdigit ?r" by (auto simp: list_all_iff char_isdigit_def)
    then have dig: "int_digits (digit_value d) ?r =
        Some (foldl (\<lambda>a c. 10 * a + digit_value c) (digit_value d) ?r)"
      using dec by (simp add: int_digits_isdigit)
    have flt: "filter is_decimal (d # ?r) = d # ?r"
      using dec True by (simp add: list_all_iff)
    have nil: "(dropWhile is_decimal s \<noteq> []) = (\<not> list_all is_decimal s)"
      by (simp add: dropWhile_eq_Nil_conv list_all_iff)
    have tm: "(int_max_str_digits < length (d # ?r)) = too_many_digits s"
      by (simp only: too_many_digits_def r)
    have step: "py_int s =
        (if too_many_digits s then Inl DigitLimitError
         else if \<not> list_all is_decimal s then Inl (InvalidLiteral s)
         else Inr (int (foldl (\<lambda>a c. 10 * a + digit_value c) (digit_value d) ?r)))"
      unfolding unfold r list.case flt dig option.case tm nil using True by (simp only: if_True)
    show ?thesis
    proof (cases "list_all is_decimal s")
      case False
      then show ?thesis by (simp only: step if_False if_True not_False_eq_True)
    next
      case all_dec: True
      then have "?r = ds" using s by (simp add: list_all_iff)
      moreover have "decimal_value s = foldl (\<lambda>a c. 10 * a + digit_value c) (digit_value d) ds"
        by (simp add: s decimal_value_def)
      ultimately have "foldl (\<lambda>a c. 10 * a + digit_value c) (digit_value d) ?r = decimal_value s"
        by (simp only:)
      then show ?thesis using all_dec by (simp only: step if_True if_False not_True_eq_False)
    qed
  qed
qed

lemma check_hhmm_invalid:
  assumes "\<not> (\<exists>hh mm. p = hh @ CHR '':'' # mm \<and> isdigit hh \<and> isdigit mm)"
  shows "check_hhmm p = Some (ValueError (HORA_INVALIDA @ p))"
proof (cases "length (str_split CHR '':'' p) = 2")
  case False
  then show ?thesis by (simp add: check_hhmm_def Let_def)
next
  case True
  then obtain hh mm where sp: "str_split CHR '':'' p = [hh, mm]"
    by (auto simp: length_2_iff)
  then have "p = hh @ CHR '':'' # mm" by (simp add: str_split_two)
  with assms have "\<not> (isdigit hh \<and> isdigit mm)" by blast
  with sp show ?thesis by (simp add: check_hhmm_def Let_def)
qed

lemma check_hhmm_digits:
  assumes "isdigit hh" "isdigit mm"
  shows "check_hhmm (hh @ CHR '':'' # mm) =
           (if too_many_digits hh then Some DigitLimitError
            else if \<not> numeric hh then Some (InvalidLiteral hh)
            else if 23 < decimal_value hh
              then Some (ValueError (HORA_FUERA_DE_RANGO @ hh @ CHR '':'' # mm))
            else if too_many_digits mm then Some DigitLimitError
            else if \<not> numeric mm then Some (InvalidLiteral mm)
            else if 59 < decimal_value mm
              then Some (ValueError (HORA_FUERA_DE_RANGO @ hh @ CHR '':'' # mm))
            else None)"
proof -
  from assms have "CHR '':'' \<notin> set hh" "CHR '':'' \<notin> set mm" by (simp_all add: isdigit_no_colon)
  then have sp: "str_split CHR '':'' (hh @ CHR '':'' # mm) = [hh, mm]"
    by (simp add: str_split_two)
  have n: "[hh, mm] ! 0 = hh" "[hh, mm] ! 1 = mm" by simp_all
  have "check_hhmm (hh @ CHR '':'' # mm) =
      (case py_int hh of
         Inl e \<Rightarrow> Some e
       | Inr h \<Rightarrow>
           if \<not> (0 \<le> h \<and> h \<le> 23)
           then Some (ValueError (HORA_FUERA_DE_RANGO @ hh @ CHR '':'' # mm))
           else
             (case py_int mm of
                Inl e \<Rightarrow> Some e
              | Inr m \<Rightarrow>
                  if \<not> (0 \<le> m \<and> m \<le> 59)
                  then Some (ValueError (HORA_FUERA_DE_RANGO @ hh @ CHR '':'' # mm))
                  else None))"
    unfolding check_hhmm_def sp Let_def n using assms by simp
  then show ?thesis
    using assms by (simp add: py_int_isdigit numeric_isdigit)
qed

lemma check_hhmm_None:
  "check_hhmm p = None \<longleftrightarrow> (\<exists>hh mm. p = hh @ CHR '':'' # mm \<and> valid_time hh mm)"
proof
  assume ok: "check_hhmm p = None"
  then have "\<exists>hh mm. p = hh @ CHR '':'' # mm \<and> isdigit hh \<and> isdigit mm"
    using check_hhmm_invalid [of p] by auto
  then obtain hh mm where p: "p = hh @ CHR '':'' # mm" and dg: "isdigit hh" "isdigit mm"
    by blast
  from ok have "valid_time hh mm"
    unfolding p check_hhmm_digits [OF dg] valid_time_def
    by (auto simp: numeric_def too_many_numeric split: if_splits)
  with p show "\<exists>hh mm. p = hh @ CHR '':'' # mm \<and> valid_time hh mm" by blast
next
  assume "\<exists>hh mm. p = hh @ CHR '':'' # mm \<and> valid_time hh mm"
  then obtain hh mm where p: "p = hh @ CHR '':'' # mm" and v: "valid_time hh mm" by blast
  from v have dg: "isdigit hh" "isdigit mm" by (simp_all add: valid_time_def numeric_isdigit)
  from v show "check_hhmm p = None"
    unfolding p check_hhmm_digits [OF dg] valid_time_def
    by (auto simp: numeric_def too_many_numeric)
qed


lemma occurs_in_iff: "occurs_in tok msg \<longleftrightarrow> (\<exists>pre post. msg = pre @ tok @ post)"
proof
  assume "occurs_in tok msg"
  then show "\<exists>pre post. msg = pre @ tok @ post"
  proof (induction msg)
    case Nil
    then show ?case by simp
  next
    case (Cons c cs)
    from Cons.prems consider "take (length tok) (c # cs) = tok" | "occurs_in tok cs" by auto
    then show ?case
    proof cases
      case 1
      then have "c # cs = [] @ tok @ drop (length tok) (c # cs)"
        by (metis append_Nil append_take_drop_id)
      then show ?thesis by blast
    next
      case 2
      with Cons.IH obtain pre post where "cs = pre @ tok @ post" by blast
      then have "c # cs = (c # pre) @ tok @ post" by simp
      then show ?thesis by blast
    qed
  qed
next
  assume "\<exists>pre post. msg = pre @ tok @ post"
  then obtain pre post where "msg = pre @ tok @ post" by blast
  then show "occurs_in tok msg"
  proof (induction pre arbitrary: msg)
    case Nil
    then have tk: "take (length tok) msg = tok" by simp
    show ?case
    proof (cases msg)
      case Nil
      with tk show ?thesis by simp
    next
      case (Cons a list)
      show ?thesis using tk unfolding Cons occurs_in.simps by (rule disjI1)
    qed
  next
    case (Cons x pre)
    then show ?case by auto
  qed
qed

lemma parse_horas_parts:
  assumes "str_split CHR '','' text = [a, b]"
    and "CHR '':'' \<in> set (strip a)" "CHR '':'' \<in> set (strip b)"
  shows "parse_horas text =
           (case check_hhmm (strip a) of
              Some e \<Rightarrow> Inl e
            | None \<Rightarrow>
                (case check_hhmm (strip b) of
                   Some e \<Rightarrow> Inl e
                 | None \<Rightarrow> Inr (strip a, strip b)))"
  using assms by (simp add: parse_horas_def Let_def split: option.splits)

lemma parse_horas_Inr:
  "parse_horas text = Inr (h1, h2) \<longleftrightarrow>
     (\<exists>a b. str_split CHR '','' text = [a, b] \<and> h1 = strip a \<and> h2 = strip b \<and>
        check_hhmm h1 = None \<and> check_hhmm h2 = None)"
proof
  assume ok: "parse_horas text = Inr (h1, h2)"
  then have "length (str_split CHR '','' text) = 2"
    by (auto simp: parse_horas_def Let_def split: if_splits)
  then obtain a b where sp: "str_split CHR '','' text = [a, b]"
    by (auto simp: length_2_iff)
  with ok show "\<exists>a b. str_split CHR '','' text = [a, b] \<and> h1 = strip a \<and> h2 = strip b \<and>
        check_hhmm h1 = None \<and> check_hhmm h2 = None"
    by (auto simp: parse_horas_def Let_def split: if_splits option.splits)
next
  assume "\<exists>a b. str_split CHR '','' text = [a, b] \<and> h1 = strip a \<and> h2 = strip b \<and>
        check_hhmm h1 = None \<and> check_hhmm h2 = None"
  then obtain a b where sp: "str_split CHR '','' text = [a, b]" and h: "h1 = strip a" "h2 = strip b"
    and c: "check_hhmm h1 = None" "check_hhmm h2 = None" by blast
  from c have "CHR '':'' \<in> set h1" "CHR '':'' \<in> set h2"
    by (auto simp: check_hhmm_None)
  with sp h c show "parse_horas text = Inr (h1, h2)"
    by (simp add: parse_horas_def Let_def)
qed

lemma parse_horas_format:
  assumes "length (str_split CHR '','' text) \<noteq> 2 \<or>
           (\<exists>p\<in>set (str_split CHR '','' text). CHR '':'' \<notin> set (strip p))"
  shows "parse_horas text = Inl (ValueError FORMATO_INVALIDO)"
  using assms by (auto simp: parse_horas_def Let_def list_ex_iff)

text \<open>The part \<open>x\<close> that the loop is checking when it raises: the first part, or the
  second one when the first one has passed.\<close>

lemma parse_horas_offending:
  assumes "str_split CHR '','' text = [a, b]"
    and "CHR '':'' \<in> set (strip a)" "CHR '':'' \<in> set (strip b)"
    and "x = strip a \<or> x = strip b \<and> (\<exists>h m. strip a = h @ CHR '':'' # m \<and> valid_time h m)"
    and "check_hhmm x = Some e"
  shows "parse_horas text = Inl e"
proof -
  from assms(4) consider "x = strip a" | "x = strip b" "check_hhmm (strip a) = None"
    by (auto simp: check_hhmm_None)
  then show ?thesis
  proof cases
    case 1
    with assms(5) show ?thesis by (simp add: parse_horas_parts [OF assms(1-3)])
  next
    case 2
    with assms(5) show ?thesis by (simp add: parse_horas_parts [OF assms(1-3)])
  qed
qed

lemma strip_plain:
  assumes "s \<noteq> []" "\<not> isspace (hd s)" "\<not> isspace (last s)"
  shows "strip s = s"
proof -
  from assms(1,2) have "dropWhile isspace s = s" by (cases s) simp_all
  moreover have "dropWhile isspace (rev s) = rev s"
    using assms(1,3) by (rule dropWhile_rev_last)
  ultimately show ?thesis by (simp add: strip_def)
qed

lemma decimal_value_zeros: "decimal_value (replicate n CHR ''0'') = 0"
proof -
  have "foldl (\<lambda>a c. 10 * a + digit_value c) 0 (replicate n CHR ''0'') = 0"
    by (induction n) (simp_all add: digit_value_def)
  then show ?thesis by (simp add: decimal_value_def)
qed

lemma zeros_numeric:
  assumes "0 < n"
  shows "numeric (replicate n CHR ''0'')" "isdigit (replicate n CHR ''0'')"
    "too_many_digits (replicate n CHR ''0'') \<longleftrightarrow> int_max_str_digits < n"
proof -
  show n: "numeric (replicate n CHR ''0'')"
    using assms by (simp add: numeric_def list_all_iff is_decimal_def)
  then show "isdigit (replicate n CHR ''0'')" by (simp add: numeric_isdigit)
  from n have "list_all is_decimal (replicate n CHR ''0'')" by (simp add: numeric_def)
  then show "too_many_digits (replicate n CHR ''0'') \<longleftrightarrow> int_max_str_digits < n"
    by (simp add: too_many_numeric)
qed

text \<open>An hour of more than 4300 zeros.\<close>

lemma parse_horas_long_hour:
  assumes "int_max_str_digits < n"
  shows "parse_horas (replicate n CHR ''0'' @ '':00,13:00'') = Inl DigitLimitError"
proof -
  let ?z = "replicate n CHR ''0''"
  from assms have n: "0 < n" by simp
  have sp: "str_split CHR '','' (?z @ '':00,13:00'') = [?z @ '':00'', ''13:00'']"
    using str_split_two [of "CHR '',''" "?z @ '':00,13:00''" "?z @ '':00''" "''13:00''"]
    by simp
  have "hd (?z @ '':00'') = CHR ''0''" using n by (cases n) simp_all
  then have a: "strip (?z @ '':00'') = ?z @ '':00''"
    by (intro strip_plain) (simp_all add: isspace_def)
  have b: "strip ''13:00'' = ''13:00''" by code_simp
  have "isdigit ''00''" by code_simp
  with zeros_numeric [OF n] assms
  have "check_hhmm (?z @ '':00'') = Some DigitLimitError"
    by (simp add: check_hhmm_digits)
  then show ?thesis
    using parse_horas_parts [OF sp] by (simp add: a b)
qed

lemma parse_horas_examples:
  "parse_horas ''06:30,13:00'' = Inr (''06:30'', ''13:00'')"
  "parse_horas ''6:30-13:00'' = Inl (ValueError FORMATO_INVALIDO)"
  "parse_horas ''25:00,13:00'' = Inl (ValueError (HORA_FUERA_DE_RANGO @ ''25:00''))"
  by code_simp+

text \<open>
  Claim C6, as the code has it. \<open>_parse_horas\<close> returns \<open>(h1, h2)\<close> exactly when the
  input splits at commas into two parts, \<open>h1\<close> and \<open>h2\<close> are these parts trimmed, and
  each is \<open>hh:mm\<close> with \<open>hh\<close> and \<open>mm\<close> numeric segments of at most 4300 digits, the
  hour at most 23 and the minute at most 59. Every other input raises, and the exception
  is the one of the first check that fails:

  \<^item> when the input does not split into exactly two parts, or a trimmed part has no
    colon, a \<open>ValueError\<close> with one fixed message, which does not depend on the input;

  \<^item> otherwise the parts are checked in turn, and \<open>x\<close> is the part at which the check
    stops: the first part, or the second one when the first one is a valid time. If
    \<open>x\<close> is not two segments around one colon that \<open>isdigit\<close> accepts, the message is
    \<open>Hora invalida:\<close> followed by \<open>x\<close>. If it is \<open>hh:mm\<close> with such segments, the hour
    is converted and compared, then the minute: a segment that begins with more than
    4300 decimal digits raises the digit limit error of \<open>int()\<close>, a shorter one that
    holds a superscript digit raises the invalid literal error of \<open>int()\<close> for that
    segment, and a number above 23 for the hour or 59 for the minute gives the message
    \<open>Hora fuera de rango:\<close> followed by \<open>x\<close>.

  The three examples of the specification behave as it says.
\<close>

theorem parse_horas_spec:
  "(parse_horas text = Inr (h1, h2) \<longleftrightarrow>
      (\<exists>p q hh1 mm1 hh2 mm2.
         str_split CHR '','' text = [p, q] \<and> h1 = strip p \<and> h2 = strip q \<and>
         h1 = hh1 @ CHR '':'' # mm1 \<and> h2 = hh2 @ CHR '':'' # mm2 \<and>
         valid_time hh1 mm1 \<and> valid_time hh2 mm2)) \<and>
   (length (str_split CHR '','' text) \<noteq> 2 \<or>
    (\<exists>p\<in>set (str_split CHR '','' text). CHR '':'' \<notin> set (strip p)) \<longrightarrow>
      parse_horas text = Inl (ValueError FORMATO_INVALIDO)) \<and>
   (str_split CHR '','' text = [a, b] \<and>
    CHR '':'' \<in> set (strip a) \<and> CHR '':'' \<in> set (strip b) \<and>
    (x = strip a \<or> x = strip b \<and> (\<exists>h m. strip a = h @ CHR '':'' # m \<and> valid_time h m)) \<longrightarrow>
      (\<not> (\<exists>h m. x = h @ CHR '':'' # m \<and> isdigit h \<and> isdigit m) \<longrightarrow>
         parse_horas text = Inl (ValueError (HORA_INVALIDA @ x))) \<and>
      (x = hh @ CHR '':'' # mm \<and> isdigit hh \<and> isdigit mm \<longrightarrow>
         (too_many_digits hh \<longrightarrow> parse_horas text = Inl DigitLimitError) \<and>
         (\<not> too_many_digits hh \<and> \<not> numeric hh \<longrightarrow>
            parse_horas text = Inl (InvalidLiteral hh)) \<and>
         (\<not> too_many_digits hh \<and> numeric hh \<and> 23 < decimal_value hh \<longrightarrow>
            parse_horas text = Inl (ValueError (HORA_FUERA_DE_RANGO @ x))) \<and>
         (\<not> too_many_digits hh \<and> numeric hh \<and> decimal_value hh \<le> 23 \<longrightarrow>
            (too_many_digits mm \<longrightarrow> parse_horas text = Inl DigitLimitError) \<and>
            (\<not> too_many_digits mm \<and> \<not> numeric mm \<longrightarrow>
               parse_horas text = Inl (InvalidLiteral mm)) \<and>
            (\<not> too_many_digits mm \<and> numeric mm \<and> 59 < decimal_value mm \<longrightarrow>
               parse_horas text = Inl (ValueError (HORA_FUERA_DE_RANGO @ x)))))) \<and>
   parse_horas ''06:30,13:00'' = Inr (''06:30'', ''13:00'') \<and>
   parse_horas ''6:30-13:00'' = Inl (ValueError FORMATO_INVALIDO) \<and>
   parse_horas ''25:00,13:00'' = Inl (ValueError (HORA_FUERA_DE_RANGO @ ''25:00''))"
proof -
  have success: "parse_horas text = Inr (h1, h2) \<longleftrightarrow>
      (\<exists>p q hh1 mm1 hh2 mm2.
         str_split CHR '','' text = [p, q] \<and> h1 = strip p \<and> h2 = strip q \<and>
         h1 = hh1 @ CHR '':'' # mm1 \<and> h2 = hh2 @ CHR '':'' # mm2 \<and>
         valid_time hh1 mm1 \<and> valid_time hh2 mm2)"
    unfolding parse_horas_Inr check_hhmm_None by blast
  have format: "parse_horas text = Inl (ValueError FORMATO_INVALIDO)"
    if "length (str_split CHR '','' text) \<noteq> 2 \<or>
        (\<exists>p\<in>set (str_split CHR '','' text). CHR '':'' \<notin> set (strip p))"
    using that by (rule parse_horas_format)
  have part: "(\<not> (\<exists>h m. x = h @ CHR '':'' # m \<and> isdigit h \<and> isdigit m) \<longrightarrow>
         parse_horas text = Inl (ValueError (HORA_INVALIDA @ x))) \<and>
      (x = hh @ CHR '':'' # mm \<and> isdigit hh \<and> isdigit mm \<longrightarrow>
         (too_many_digits hh \<longrightarrow> parse_horas text = Inl DigitLimitError) \<and>
         (\<not> too_many_digits hh \<and> \<not> numeric hh \<longrightarrow>
            parse_horas text = Inl (InvalidLiteral hh)) \<and>
         (\<not> too_many_digits hh \<and> numeric hh \<and> 23 < decimal_value hh \<longrightarrow>
            parse_horas text = Inl (ValueError (HORA_FUERA_DE_RANGO @ x))) \<and>
         (\<not> too_many_digits hh \<and> numeric hh \<and> decimal_value hh \<le> 23 \<longrightarrow>
            (too_many_digits mm \<longrightarrow> parse_horas text = Inl DigitLimitError) \<and>
            (\<not> too_many_digits mm \<and> \<not> numeric mm \<longrightarrow>
               parse_horas text = Inl (InvalidLiteral mm)) \<and>
            (\<not> too_many_digits mm \<and> numeric mm \<and> 59 < decimal_value mm \<longrightarrow>
               parse_horas text = Inl (ValueError (HORA_FUERA_DE_RANGO @ x)))))"
    if H: "str_split CHR '','' text = [a, b] \<and>
        CHR '':'' \<in> set (strip a) \<and> CHR '':'' \<in> set (strip b) \<and>
        (x = strip a \<or> x = strip b \<and> (\<exists>h m. strip a = h @ CHR '':'' # m \<and> valid_time h m))"
  proof -
    have raised: "parse_horas text = Inl e" if "check_hhmm x = Some e" for e
      using H that parse_horas_offending [of _ a b x e] by blast
    have inv: "parse_horas text = Inl (ValueError (HORA_INVALIDA @ x))"
      if "\<not> (\<exists>h m. x = h @ CHR '':'' # m \<and> isdigit h \<and> isdigit m)"
      using that by (intro raised check_hhmm_invalid)
    have dig: "(too_many_digits hh \<longrightarrow> parse_horas text = Inl DigitLimitError) \<and>
         (\<not> too_many_digits hh \<and> \<not> numeric hh \<longrightarrow>
            parse_horas text = Inl (InvalidLiteral hh)) \<and>
         (\<not> too_many_digits hh \<and> numeric hh \<and> 23 < decimal_value hh \<longrightarrow>
            parse_horas text = Inl (ValueError (HORA_FUERA_DE_RANGO @ x))) \<and>
         (\<not> too_many_digits hh \<and> numeric hh \<and> decimal_value hh \<le> 23 \<longrightarrow>
            (too_many_digits mm \<longrightarrow> parse_horas text = Inl DigitLimitError) \<and>
            (\<not> too_many_digits mm \<and> \<not> numeric mm \<longrightarrow>
               parse_horas text = Inl (InvalidLiteral mm)) \<and>
            (\<not> too_many_digits mm \<and> numeric mm \<and> 59 < decimal_value mm \<longrightarrow>
               parse_horas text = Inl (ValueError (HORA_FUERA_DE_RANGO @ x))))"
      if x: "x = hh @ CHR '':'' # mm \<and> isdigit hh \<and> isdigit mm"
    proof -
      from x have c: "check_hhmm x =
           (if too_many_digits hh then Some DigitLimitError
            else if \<not> numeric hh then Some (InvalidLiteral hh)
            else if 23 < decimal_value hh then Some (ValueError (HORA_FUERA_DE_RANGO @ x))
            else if too_many_digits mm then Some DigitLimitError
            else if \<not> numeric mm then Some (InvalidLiteral mm)
            else if 59 < decimal_value mm then Some (ValueError (HORA_FUERA_DE_RANGO @ x))
            else None)"
        using check_hhmm_digits [of hh mm] by simp
      show ?thesis
        by (intro conjI impI; rule raised) (simp_all add: c)
    qed
    from inv dig show ?thesis by blast
  qed
  from success format part parse_horas_examples show ?thesis by blast
qed

text \<open>
  Claim C6 as the specification words it has every failure name the offending token,
  and every pair of numeric segments in range succeed. The input \<open>6:30-13:00\<close> fails
  with the fixed message, in which the token does not occur; \<open>abc\<close> fails with the same
  message. An hour of 4301 zeros is a numeric segment whose value, 0, is in range, and
  the input fails with the digit limit error of \<open>int()\<close>.
\<close>

theorem parse_horas_counterexample:
  "parse_horas ''6:30-13:00'' = Inl (ValueError FORMATO_INVALIDO) \<and>
   \<not> occurs_in ''6:30-13:00'' FORMATO_INVALIDO \<and>
   parse_horas ''abc'' = Inl (ValueError FORMATO_INVALIDO) \<and>
   \<not> occurs_in ''abc'' FORMATO_INVALIDO \<and>
   parse_horas (replicate 4301 CHR ''0'' @ '':00,13:00'') = Inl DigitLimitError \<and>
   numeric (replicate 4301 CHR ''0'') \<and> decimal_value (replicate 4301 CHR ''0'') = 0 \<and>
   numeric ''00'' \<and> decimal_value ''00'' = 0"
proof -
  have "parse_horas ''6:30-13:00'' = Inl (ValueError FORMATO_INVALIDO) \<and>
   \<not> occurs_in ''6:30-13:00'' FORMATO_INVALIDO \<and>
   parse_horas ''abc'' = Inl (ValueError FORMATO_INVALIDO) \<and>
   \<not> occurs_in ''abc'' FORMATO_INVALIDO"
    by code_simp
  moreover have "parse_horas (replicate 4301 CHR ''0'' @ '':00,13:00'') = Inl DigitLimitError"
    by (rule parse_horas_long_hour) (simp add: int_max_str_digits_def)
  moreover have "numeric (replicate 4301 CHR ''0'')"
    by (rule zeros_numeric) simp
  moreover have "numeric ''00''" "decimal_value ''00'' = 0" by code_simp+
  ultimately show ?thesis by (simp only: decimal_value_zeros simp_thms)
qed

text \<open>
  A valid pair with blanks around a part; a single part; a part without a colon; then
  inputs of two parts with colons: a minute and an hour out of range in the second part,
  a first part that is no pair of digit segments, an hour with a superscript digit, and
  an hour of 4301 zeros.
\<close>

theorem parse_horas_spec_witness:
  "parse_horas '' 23:59 ,00:00'' = Inr (''23:59'', ''00:00'') \<and>
   parse_horas ''12:00'' = Inl (ValueError FORMATO_INVALIDO) \<and>
   parse_horas ''12:00,1300'' = Inl (ValueError FORMATO_INVALIDO) \<and>
   parse_horas ''12:00,13:60'' = Inl (ValueError (HORA_FUERA_DE_RANGO @ ''13:60'')) \<and>
   parse_horas ''12:00,24:00'' = Inl (ValueError (HORA_FUERA_DE_RANGO @ ''24:00'')) \<and>
   parse_horas ''1x:00,25:00'' = Inl (ValueError (HORA_INVALIDA @ ''1x:00'')) \<and>
   parse_horas ([CHR ''1'', CHR 0xB2] @ '':00,13:00'') = Inl (InvalidLiteral [CHR ''1'', CHR 0xB2]) \<and>
   parse_horas (replicate 4301 CHR ''0'' @ '':00,13:00'') = Inl DigitLimitError"
proof -
  have sp: "str_split CHR '','' '' 23:59 ,00:00'' = ['' 23:59 '', ''00:00'']"
    "''23:59'' = strip '' 23:59 ''" "''00:00'' = strip ''00:00''"
    "''23:59'' = ''23'' @ CHR '':'' # ''59''" "''00:00'' = ''00'' @ CHR '':'' # ''00''"
    "valid_time ''23'' ''59''" "valid_time ''00'' ''00''"
    by code_simp+
  have "\<exists>p q hh1 mm1 hh2 mm2.
         str_split CHR '','' '' 23:59 ,00:00'' = [p, q] \<and> ''23:59'' = strip p \<and> ''00:00'' = strip q \<and>
         ''23:59'' = hh1 @ CHR '':'' # mm1 \<and> ''00:00'' = hh2 @ CHR '':'' # mm2 \<and>
         valid_time hh1 mm1 \<and> valid_time hh2 mm2"
    by (rule exI [of _ "'' 23:59 ''"], rule exI [of _ "''00:00''"], rule exI [of _ "''23''"],
        rule exI [of _ "''59''"], rule exI [of _ "''00''"], rule exI [of _ "''00''"])
      (intro conjI sp)
  then have w1: "parse_horas '' 23:59 ,00:00'' = Inr (''23:59'', ''00:00'')"
    by (rule parse_horas_spec [of "'' 23:59 ,00:00''" "''23:59''" "''00:00''",
          THEN conjunct1, THEN iffD2])
  have "length (str_split CHR '','' ''12:00'') \<noteq> 2" by code_simp
  then have w2: "parse_horas ''12:00'' = Inl (ValueError FORMATO_INVALIDO)"
    by (intro parse_horas_spec [of "''12:00''", THEN conjunct2, THEN conjunct1, THEN mp] disjI1)
  have "\<exists>p\<in>set (str_split CHR '','' ''12:00,1300''). CHR '':'' \<notin> set (strip p)" by code_simp
  then have w3: "parse_horas ''12:00,1300'' = Inl (ValueError FORMATO_INVALIDO)"
    by (intro parse_horas_spec [of "''12:00,1300''", THEN conjunct2, THEN conjunct1, THEN mp]
          disjI2)
  have first: "strip ''12:00'' = ''12'' @ CHR '':'' # ''00''" "valid_time ''12'' ''00''"
    by code_simp+
  have first_ok: "\<exists>h m. strip ''12:00'' = h @ CHR '':'' # m \<and> valid_time h m"
    by (rule exI [of _ "''12''"], rule exI [of _ "''00''"]) (intro conjI first)
  have p4: "str_split CHR '','' ''12:00,13:60'' = [''12:00'', ''13:60'']"
    "CHR '':'' \<in> set (strip ''12:00'')" "CHR '':'' \<in> set (strip ''13:60'')"
    "''13:60'' = strip ''13:60''"
    and x4: "''13:60'' = ''13'' @ CHR '':'' # ''60''" "isdigit ''13''" "isdigit ''60''"
    and h4: "\<not> too_many_digits ''13''" "numeric ''13''" "decimal_value ''13'' \<le> 23"
    and m4: "\<not> too_many_digits ''60''" "numeric ''60''" "59 < decimal_value ''60''"
    by code_simp+
  have w4: "parse_horas ''12:00,13:60'' = Inl (ValueError (HORA_FUERA_DE_RANGO @ ''13:60''))"
    by (rule parse_horas_spec [of "''12:00,13:60''" _ _ "''12:00''" "''13:60''" "''13:60''"
          "''13''" "''60''", THEN conjunct2, THEN conjunct2, THEN conjunct1, THEN mp,
          THEN conjunct2, THEN mp, THEN conjunct2, THEN conjunct2, THEN conjunct2, THEN mp,
          THEN conjunct2, THEN conjunct2, THEN mp])
      (intro conjI disjI2 p4 x4 h4 m4 first_ok)+
  have p5: "str_split CHR '','' ''12:00,24:00'' = [''12:00'', ''24:00'']"
    "CHR '':'' \<in> set (strip ''12:00'')" "CHR '':'' \<in> set (strip ''24:00'')"
    "''24:00'' = strip ''24:00''"
    and x5: "''24:00'' = ''24'' @ CHR '':'' # ''00''" "isdigit ''24''" "isdigit ''00''"
    and h5: "\<not> too_many_digits ''24''" "numeric ''24''" "23 < decimal_value ''24''"
    by code_simp+
  have w5: "parse_horas ''12:00,24:00'' = Inl (ValueError (HORA_FUERA_DE_RANGO @ ''24:00''))"
    by (rule parse_horas_spec [of "''12:00,24:00''" _ _ "''12:00''" "''24:00''" "''24:00''"
          "''24''" "''00''", THEN conjunct2, THEN conjunct2, THEN conjunct1, THEN mp,
          THEN conjunct2, THEN mp, THEN conjunct2, THEN conjunct2, THEN conjunct1, THEN mp])
      (intro conjI disjI2 p5 x5 h5 first_ok)+
  have no: "\<not> (\<exists>h m. ''1x:00'' = h @ CHR '':'' # m \<and> isdigit h \<and> isdigit m)"
  proof
    assume "\<exists>h m. ''1x:00'' = h @ CHR '':'' # m \<and> isdigit h \<and> isdigit m"
    then obtain h m where x: "''1x:00'' = h @ CHR '':'' # m" and d: "isdigit h" "isdigit m"
      by blast
    from d have "CHR '':'' \<notin> set h" "CHR '':'' \<notin> set m" by (simp_all add: isdigit_no_colon)
    with x have "str_split CHR '':'' ''1x:00'' = [h, m]" by (simp only: str_split_two simp_thms)
    moreover have "str_split CHR '':'' ''1x:00'' = [''1x'', ''00'']" by code_simp
    ultimately have "h = ''1x''" by (simp only: list.inject)
    moreover have "\<not> isdigit ''1x''" by code_simp
    ultimately show False using d by (simp only:)
  qed
  have p6: "str_split CHR '','' ''1x:00,25:00'' = [''1x:00'', ''25:00'']"
    "CHR '':'' \<in> set (strip ''1x:00'')" "CHR '':'' \<in> set (strip ''25:00'')"
    "''1x:00'' = strip ''1x:00''"
    by code_simp+
  have w6: "parse_horas ''1x:00,25:00'' = Inl (ValueError (HORA_INVALIDA @ ''1x:00''))"
    by (rule parse_horas_spec [of "''1x:00,25:00''" _ _ "''1x:00''" "''25:00''" "''1x:00''",
          THEN conjunct2, THEN conjunct2, THEN conjunct1, THEN mp, THEN conjunct1, THEN mp])
      (intro conjI disjI1 p6 no)+
  let ?s = "[CHR ''1'', CHR 0xB2]"
  have p7: "str_split CHR '','' (?s @ '':00,13:00'') = [?s @ '':00'', ''13:00'']"
    "CHR '':'' \<in> set (strip (?s @ '':00''))" "CHR '':'' \<in> set (strip ''13:00'')"
    "?s @ '':00'' = strip (?s @ '':00'')"
    and x7: "?s @ '':00'' = ?s @ CHR '':'' # ''00''" "isdigit ?s" "isdigit ''00''"
    and h7: "\<not> too_many_digits ?s" "\<not> numeric ?s"
    by code_simp+
  have w7: "parse_horas (?s @ '':00,13:00'') = Inl (InvalidLiteral ?s)"
    by (rule parse_horas_spec [of "?s @ '':00,13:00''" _ _ "?s @ '':00''" "''13:00''"
          "?s @ '':00''" ?s "''00''", THEN conjunct2, THEN conjunct2, THEN conjunct1, THEN mp,
          THEN conjunct2, THEN mp, THEN conjunct2, THEN conjunct1, THEN mp])
      (intro conjI disjI1 p7 x7 h7)+
  let ?z = "replicate 4301 CHR ''0''"
  have z: "isdigit ?z" "too_many_digits ?z"
    using zeros_numeric [of 4301] by (simp_all add: int_max_str_digits_def)
  have sp8: "str_split CHR '','' (?z @ '':00,13:00'') = [?z @ '':00'', ''13:00'']"
    using str_split_two [of "CHR '',''" "?z @ '':00,13:00''" "?z @ '':00''" "''13:00''"]
    by simp
  have "hd (?z @ '':00'') = CHR ''0''" by (simp add: hd_append)
  then have a8: "?z @ '':00'' = strip (?z @ '':00'')"
    by (intro strip_plain [symmetric]) (simp_all add: isspace_def)
  have c8: "CHR '':'' \<in> set (strip (?z @ '':00''))"
    unfolding a8 [symmetric] by simp
  have b8: "CHR '':'' \<in> set (strip ''13:00'')" "isdigit ''00''" by code_simp+
  have x8: "?z @ '':00'' = ?z @ CHR '':'' # ''00''" by simp
  have w8: "parse_horas (?z @ '':00,13:00'') = Inl DigitLimitError"
    by (rule parse_horas_spec [of "?z @ '':00,13:00''" _ _ "?z @ '':00''" "''13:00''"
          "?z @ '':00''" ?z "''00''", THEN conjunct2, THEN conjunct2, THEN conjunct1, THEN mp,
          THEN conjunct2, THEN mp, THEN conjunct1, THEN mp])
      (intro conjI disjI1 sp8 c8 b8 a8 x8 z)+
  from w1 w2 w3 w4 w5 w6 w7 w8 show ?thesis by (intro conjI)
qed

end
